theory Spec2Isabelle
  imports
    Complex_Main
    "HOL-Library.Char_ord"
    "HOL-Library.Log_Nat"
    "HOL-Library.List_Lexorder"
    "HOL-Library.Product_Lexorder"
begin

section \<open>Data model (src/types.ts)\<close>

text \<open>
  TypeScript \<^verbatim>\<open>number\<close>s that count or stamp something (attempt counts, timestamps,
  \<^verbatim>\<open>maxAttempts\<close>) are modelled as \<^typ>\<open>int\<close>, delays in milliseconds as
  \<^typ>\<open>rat\<close> (the exponential backoff multiplies by a power of two whose exponent may
  be negative), HTTP status codes and the capacity bound as \<^typ>\<open>nat\<close>; their
  arithmetic is exact. The numbers inside a request body or the metadata are binary64
  values, see \<open>number\<close> below.
  Strings are \<^typ>\<open>string\<close>, compared by code unit.
\<close>

datatype HttpMethod = GET | POST | PUT | PATCH | DELETE

datatype EntryStatus = Pending | Processing | Completed | Failed

record EntryError =
  message :: string
  code :: "string option"

text \<open>
  A JavaScript \<^verbatim>\<open>number\<close> as it occurs in a request body or in metadata: a finite
  IEEE 754 binary64 value, given by the rational number it denotes (\<open>Finite 0\<close> is
  \<^verbatim>\<open>+0\<close>), or one of \<^verbatim>\<open>-0\<close>, \<^verbatim>\<open>NaN\<close>, \<^verbatim>\<open>Infinity\<close> and \<^verbatim>\<open>-Infinity\<close>. Which
  rationals are binary64 values is \<open>isDouble\<close> below.
\<close>

datatype number = Finite rat | NegZero | NaN | Infinity | NegInfinity

text \<open>
  A JSON value, the shape of \<^verbatim>\<open>request.body\<close> and \<^verbatim>\<open>metadata\<close>. An object is the
  list of its properties in the order JavaScript enumerates them.
\<close>

datatype json =
    JNull
  | JBool bool
  | JNum number
  | JStr string
  | JArr "json list"
  | JObj "(string \<times> json) list"

text \<open>
  \<^verbatim>\<open>StoredRequest\<close> and \<^verbatim>\<open>LedgerEntry\<close>. The body and the metadata are type
  parameters: in memory they are optional JSON values (\<^verbatim>\<open>undefined\<close> is \<open>None\<close>),
  in the object store they are the optional JSON texts that \<^verbatim>\<open>put\<close> wrote.
  The field \<^verbatim>\<open>method\<close> is written \<open>method'\<close> and \<^verbatim>\<open>id\<close> is written \<open>id'\<close>.
\<close>

record 'b StoredRequest =
  url :: string
  method' :: HttpMethod
  headers :: "(string \<times> string) list"
  body :: 'b

record ('b, 'm) LedgerEntryOf =
  id' :: string
  request :: "'b StoredRequest"
  status :: EntryStatus
  attemptCount :: int
  createdAt :: int
  lastAttemptAt :: "int option"
  error :: "EntryError option"
  idempotencyKey :: "string option"
  metadata :: 'm

type_synonym LedgerEntry = "(json option, json option) LedgerEntryOf"

type_synonym StoredEntry = "(string option, string option) LedgerEntryOf"

text \<open>
  \<^verbatim>\<open>LedgerEntryPatch\<close>. Every key is optional; for \<^verbatim>\<open>error\<close> the patch
  distinguishes a missing key (\<open>None\<close>) from a key that is present with the value
  \<^verbatim>\<open>undefined\<close> (\<open>Some None\<close>) and from a key with an error (\<open>Some (Some e)\<close>).
\<close>

record LedgerEntryPatch =
  patch_status :: "EntryStatus option"
  patch_attemptCount :: "int option"
  patch_lastAttemptAt :: "int option"
  patch_error :: "EntryError option option"

text \<open>
  \<^verbatim>\<open>RetryStrategy\<close>: \<open>Fixed delayMs maxAttempts\<close>,
  \<open>Exponential baseMs maxMs maxAttempts\<close>, or \<open>Manual\<close>.
\<close>

datatype RetryStrategy =
    Fixed rat int
  | Exponential rat rat int
  | Manual

text \<open>
  The exceptions the code throws or receives. \<open>Error\<close>, \<open>TypeError\<close>, \<open>DOMException\<close>
  (its name, then its message) and \<open>SyntaxError\<close> are the platform's; the others are the
  classes of src/types.ts, \<open>PersistenceError\<close> and \<open>NetworkError\<close> with their cause.
\<close>

datatype error =
    Error string
  | TypeError string
  | DOMException string string
  | SyntaxError string
  | PersistenceError string "error option"
  | NetworkError string "error option"
  | EntryNotFoundError string
  | DuplicateEntryError string

record Response =
  http_status :: nat

section \<open>Numbers as text\<close>

definition digitChar :: "nat \<Rightarrow> char" where
  "digitChar d = char_of (48 + d)"

definition isDigit :: "char \<Rightarrow> bool" where
  "isDigit c = (48 \<le> (of_char c :: nat) \<and> (of_char c :: nat) \<le> 57)"

definition digitVal :: "char \<Rightarrow> nat" where
  "digitVal c = of_char c - 48"

text \<open>
  \<^verbatim>\<open>Number.prototype.toString\<close> on a natural number (an HTTP status in a template
  string): its decimal digits.
\<close>

function natToString :: "nat \<Rightarrow> string" where
  "natToString n = (if n < 10 then [digitChar n] else natToString (n div 10) @ [digitChar (n mod 10)])"
  by pat_completeness auto
termination
  by (relation "measure id") auto

declare natToString.simps [simp del]

text \<open>The decimal digits of a non-negative integer, and the integer a digit string denotes.\<close>

function decimalDigits :: "int \<Rightarrow> string" where
  "decimalDigits i =
     (if i < 10 then [digitChar (nat i)]
      else decimalDigits (i div 10) @ [digitChar (nat (i mod 10))])"
  by pat_completeness auto
termination
  by (relation "measure nat") auto

declare decimalDigits.simps [simp del]

definition digitsValue :: "string \<Rightarrow> int" where
  "digitsValue ds = foldl (\<lambda>a c. 10 * a + int (digitVal c)) 0 ds"

section \<open>Number values\<close>

text \<open>
  The binary64 value of a real number, for a non-negative rational \<open>a\<close>: round to
  nearest, ties to even, with 53 significant bits and the least exponent \<open>-1074\<close>;
  \<open>None\<close> is the overflow to \<^verbatim>\<open>Infinity\<close>. \<open>floorLog2 a\<close> is the \<open>e\<close> with
  \<open>2^e \<le> a < 2^(e+1)\<close>, found from the bit lengths of numerator and denominator.
  A rational is a binary64 value when rounding its magnitude changes nothing.
\<close>

definition floorLog2 :: "rat \<Rightarrow> int" where
  "floorLog2 a =
     (let (n, d) = quotient_of a;
          e = bitlen n - bitlen d
      in if 2 powi e \<le> a then e else e - 1)"

definition roundHalfEven :: "rat \<Rightarrow> int" where
  "roundHalfEven r =
     (let f = \<lfloor>r\<rfloor>; d = r - of_int f
      in if d < 1 / 2 then f
         else if 1 / 2 < d then f + 1
         else if even f then f else f + 1)"

definition roundToDouble :: "rat \<Rightarrow> rat option" where
  "roundToDouble a =
     (if a = 0 then Some 0
      else (let p = max (floorLog2 a - 52) (- 1074);
                m = roundHalfEven (a / 2 powi p);
                r = of_int m * 2 powi p
            in if of_int (2 ^ 1024) \<le> r then None else Some r))"


section \<open>Number.prototype.toString\<close>

text \<open>
  ECMAScript's \<^verbatim>\<open>Number::toString\<close> in radix 10. A decimal \<open>(s, e)\<close> stands for
  \<open>s * 10^e\<close>. For a positive value \<open>a\<close> the digits are those of the decimal with the fewest
  digits whose binary64 value is \<open>a\<close>: for \<open>k = 1, 2, \<dots>, 17\<close> the two \<open>k\<close>-digit decimals
  next to \<open>a\<close> are tried, and of two that fit the one closer to \<open>a\<close> is taken, the even one
  on a tie. \<open>decimalExponent a\<close> is the \<open>n\<close> with \<open>10^(n-1) \<le> a < 10^n\<close>. Past 17 digits
  the search ends with the exact decimal expansion of \<open>a\<close>; 17 digits tell every binary64
  value from its neighbours, so that this is not reached for one.
\<close>

definition decimalExponent :: "rat \<Rightarrow> int" where
  "decimalExponent a =
     (let (n, d) = quotient_of a;
          e = int (length (decimalDigits n)) - int (length (decimalDigits d))
      in if 10 powi e \<le> a then e + 1 else e)"

definition decimalValue :: "int \<times> int \<Rightarrow> rat" where
  "decimalValue c = of_int (fst c) * 10 powi (snd c)"

definition candidates :: "rat \<Rightarrow> nat \<Rightarrow> (int \<times> int) list" where
  "candidates a k =
     (let e = decimalExponent a - int k;
          f = \<lfloor>a / 10 powi e\<rfloor>
      in [(f, e), (f + 1, e)])"

definition readsAs :: "rat \<Rightarrow> int \<times> int \<Rightarrow> bool" where
  "readsAs a c = (0 < fst c \<and> roundToDouble (decimalValue c) = Some a)"

definition closer :: "rat \<Rightarrow> int \<times> int \<Rightarrow> int \<times> int \<Rightarrow> int \<times> int" where
  "closer a c1 c2 =
     (let d1 = \<bar>decimalValue c1 - a\<bar>; d2 = \<bar>decimalValue c2 - a\<bar>
      in if d1 < d2 then c1
         else if d2 < d1 then c2
         else if even (fst c1) then c1 else c2)"

definition exactDecimal :: "rat \<Rightarrow> int \<times> int" where
  "exactDecimal a = (\<lfloor>a * 10 ^ 1074\<rfloor>, - 1074)"

fun shortest :: "nat \<Rightarrow> nat \<Rightarrow> rat \<Rightarrow> int \<times> int" where
  "shortest 0 k a = exactDecimal a"
| "shortest (Suc fuel) k a =
     (case filter (readsAs a) (candidates a k) of
        [] \<Rightarrow> shortest fuel (k + 1) a
      | [c] \<Rightarrow> c
      | c1 # c2 # cs \<Rightarrow> closer a c1 c2)"

function stripZeros :: "int \<times> int \<Rightarrow> int \<times> int" where
  "stripZeros c =
     (if 0 < fst c \<and> fst c mod 10 = 0 then stripZeros (fst c div 10, snd c + 1) else c)"
  by pat_completeness auto
termination
  by (relation "measure (nat \<circ> fst)") auto

declare stripZeros.simps [simp del]

definition digitsOf :: "rat \<Rightarrow> int \<times> int" where
  "digitsOf a = stripZeros (shortest 17 1 a)"

text \<open>
  The layout: with \<open>k\<close> digits and \<open>n = e + k\<close>, an integer when \<open>k \<le> n \<le> 21\<close>, a
  decimal point inside the digits when \<open>0 < n \<le> 21\<close>, \<^verbatim>\<open>0.\<close> and zeros before the digits
  when \<open>-6 < n \<le> 0\<close>, and the exponent notation otherwise.
\<close>

definition formatDecimal :: "int \<times> int \<Rightarrow> string" where
  "formatDecimal c =
     (let ds = decimalDigits (fst c);
          k = int (length ds);
          n = snd c + k
      in if k \<le> n \<and> n \<le> 21 then ds @ replicate (nat (n - k)) (CHR ''0'')
         else if 0 < n \<and> n \<le> 21 then take (nat n) ds @ CHR ''.'' # drop (nat n) ds
         else if - 6 < n \<and> n \<le> 0 then ''0.'' @ replicate (nat (- n)) (CHR ''0'') @ ds
         else (let ex = (if n - 1 < 0 then CHR ''-'' else CHR ''+'') # decimalDigits \<bar>n - 1\<bar>
               in if k = 1 then ds @ CHR ''e'' # ex
                  else hd ds # CHR ''.'' # tl ds @ CHR ''e'' # ex))"

fun Number_toString :: "number \<Rightarrow> string" where
  "Number_toString NaN = ''NaN''"
| "Number_toString NegZero = ''0''"
| "Number_toString Infinity = ''Infinity''"
| "Number_toString NegInfinity = ''-Infinity''"
| "Number_toString (Finite q) =
     (if q = 0 then ''0''
      else if q < 0 then CHR ''-'' # formatDecimal (digitsOf (- q))
      else formatDecimal (digitsOf q))"

section \<open>JSON.stringify and JSON.parse\<close>

text \<open>
  The two platform functions the storage adapter calls, on the JSON values above.
  \<open>JSON_stringify\<close> writes the compact text (no white space): strings with the escapes of
  ECMAScript's \<^verbatim>\<open>QuoteJSONString\<close>, finite numbers as \<^verbatim>\<open>Number::toString\<close> writes
  them, \<^verbatim>\<open>NaN\<close> and the infinities as \<^verbatim>\<open>null\<close>. Strings are strings of code units
  below 256.
\<close>

definition dquote :: char where
  "dquote = CHR 0x22"

definition backslash :: char where
  "backslash = CHR 0x5C"

definition hexDigit :: "nat \<Rightarrow> char" where
  "hexDigit d = (if d < 10 then char_of (48 + d) else char_of (87 + d))"

definition hexVal :: "char \<Rightarrow> nat option" where
  "hexVal c =
     (let k = (of_char c :: nat) in
      if 48 \<le> k \<and> k \<le> 57 then Some (k - 48)
      else if 97 \<le> k \<and> k \<le> 102 then Some (k - 87)
      else if 65 \<le> k \<and> k \<le> 70 then Some (k - 55)
      else None)"

definition escapeChar :: "char \<Rightarrow> string" where
  "escapeChar c =
     (if c = dquote then [backslash, dquote]
      else if c = backslash then [backslash, backslash]
      else if c = CHR 0x08 then [backslash, CHR ''b'']
      else if c = CHR 0x0C then [backslash, CHR ''f'']
      else if c = CHR 0x0A then [backslash, CHR ''n'']
      else if c = CHR 0x0D then [backslash, CHR ''r'']
      else if c = CHR 0x09 then [backslash, CHR ''t'']
      else if (of_char c :: nat) < 32
        then [backslash, CHR ''u'', CHR ''0'', CHR ''0'',
              hexDigit ((of_char c :: nat) div 16), hexDigit ((of_char c :: nat) mod 16)]
      else [c])"

definition quoteJSONString :: "string \<Rightarrow> string" where
  "quoteJSONString s = dquote # concat (map escapeChar s) @ [dquote]"

fun commaSep :: "string list \<Rightarrow> string" where
  "commaSep [] = []"
| "commaSep [x] = x"
| "commaSep (x # y # ys) = x @ CHR '','' # commaSep (y # ys)"

primrec JSON_stringify :: "json \<Rightarrow> string" where
  "JSON_stringify JNull = ''null''"
| "JSON_stringify (JBool b) = (if b then ''true'' else ''false'')"
| "JSON_stringify (JNum x) =
     (case x of
        Finite q \<Rightarrow> Number_toString x
      | NegZero \<Rightarrow> Number_toString x
      | _ \<Rightarrow> ''null'')"
| "JSON_stringify (JStr s) = quoteJSONString s"
| "JSON_stringify (JArr xs) = CHR ''['' # commaSep (map JSON_stringify xs) @ '']''"
| "JSON_stringify (JObj ms) =
     CHR ''{'' # commaSep (map (\<lambda>m. quoteJSONString (fst m) @ CHR '':'' # snd m)
                        (map (map_prod id JSON_stringify) ms)) @ ''}''"

text \<open>
  \<open>JSON_parse\<close> reads a JSON text, with white space between tokens, and answers \<open>None\<close>
  where \<^verbatim>\<open>JSON.parse\<close> throws a SyntaxError. A \<^verbatim>\<open>\u\<close> escape is read when it names a
  code unit below 256.
\<close>

definition unescape :: "char \<Rightarrow> char option" where
  "unescape e =
     (if e = dquote then Some dquote
      else if e = backslash then Some backslash
      else if e = CHR ''/'' then Some (CHR ''/'')
      else if e = CHR ''b'' then Some (CHR 0x08)
      else if e = CHR ''f'' then Some (CHR 0x0C)
      else if e = CHR ''n'' then Some (CHR 0x0A)
      else if e = CHR ''r'' then Some (CHR 0x0D)
      else if e = CHR ''t'' then Some (CHR 0x09)
      else None)"

definition unescapeU :: "char \<Rightarrow> char \<Rightarrow> char \<Rightarrow> char \<Rightarrow> char option" where
  "unescapeU h1 h2 h3 h4 =
     (case (hexVal h1, hexVal h2, hexVal h3, hexVal h4) of
        (Some a, Some b, Some c, Some d) \<Rightarrow>
          (let k = 4096 * a + 256 * b + 16 * c + d in
           if k < 256 then Some (char_of k) else None)
      | _ \<Rightarrow> None)"

definition consChar :: "char \<Rightarrow> (string \<times> string) option \<Rightarrow> (string \<times> string) option" where
  "consChar c r = (case r of None \<Rightarrow> None | Some (s, rest) \<Rightarrow> Some (c # s, rest))"

text \<open>The characters of a string literal after its opening quote, and the text after it.\<close>

fun parseString :: "string \<Rightarrow> (string \<times> string) option" where
  "parseString [] = None"
| "parseString (c # cs) =
     (if c = dquote then Some ([], cs)
      else if c = backslash then
        (case cs of
           [] \<Rightarrow> None
         | e # cs' \<Rightarrow>
             if e = CHR ''u'' then
               (case cs' of
                  h1 # h2 # h3 # h4 # cs'' \<Rightarrow>
                    (case unescapeU h1 h2 h3 h4 of
                       None \<Rightarrow> None
                     | Some u \<Rightarrow> consChar u (parseString cs''))
                | _ \<Rightarrow> None)
             else
               (case unescape e of
                  None \<Rightarrow> None
                | Some u \<Rightarrow> consChar u (parseString cs')))
      else if (of_char c :: nat) < 32 then None
      else consChar c (parseString cs))"

definition isWhitespace :: "char \<Rightarrow> bool" where
  "isWhitespace c = (c = CHR 0x20 \<or> c = CHR 0x09 \<or> c = CHR 0x0A \<or> c = CHR 0x0D)"

definition skipWs :: "string \<Rightarrow> string" where
  "skipWs s = dropWhile isWhitespace s"

text \<open>
  A number: an optional minus sign, the integer part (no leading zero), an optional
  fraction and an optional exponent. \<open>parseDecimal\<close> answers the decimal that was read,
  \<open>stringToNumber\<close> is its binary64 value with the sign.
\<close>

definition parseIntPart :: "string \<Rightarrow> (string \<times> string) option" where
  "parseIntPart s =
     (let ds = takeWhile isDigit s
      in if ds = [] \<or> (1 < length ds \<and> hd ds = CHR ''0'') then None
         else Some (ds, dropWhile isDigit s))"

definition parseFraction :: "string \<Rightarrow> (string \<times> string) option" where
  "parseFraction s =
     (if take 1 s = ''.'' then
        (let ds = takeWhile isDigit (drop 1 s)
         in if ds = [] then None else Some (ds, dropWhile isDigit (drop 1 s)))
      else Some ([], s))"

definition parseExponent :: "string \<Rightarrow> (int \<times> string) option" where
  "parseExponent s =
     (if take 1 s = ''e'' \<or> take 1 s = ''E'' then
        (let s1 = drop 1 s;
             s2 = (if take 1 s1 = ''-'' \<or> take 1 s1 = ''+'' then drop 1 s1 else s1);
             ds = takeWhile isDigit s2
         in if ds = [] then None
            else Some (if take 1 s1 = ''-'' then - digitsValue ds else digitsValue ds,
                       dropWhile isDigit s2))
      else Some (0, s))"

definition stringToNumber :: "bool \<Rightarrow> rat \<Rightarrow> number" where
  "stringToNumber neg mag =
     (case roundToDouble mag of
        None \<Rightarrow> if neg then NegInfinity else Infinity
      | Some r \<Rightarrow> if neg then (if r = 0 then NegZero else Finite (- r)) else Finite r)"

definition parseDecimal :: "string \<Rightarrow> ((int \<times> int) \<times> string) option" where
  "parseDecimal s =
     (case parseIntPart s of
        None \<Rightarrow> None
      | Some (ip, s1) \<Rightarrow>
          (case parseFraction s1 of
             None \<Rightarrow> None
           | Some (fr, s2) \<Rightarrow>
               (case parseExponent s2 of
                  None \<Rightarrow> None
                | Some (ex, s3) \<Rightarrow> Some ((digitsValue (ip @ fr), ex - int (length fr)), s3))))"

definition parseNumber :: "string \<Rightarrow> (json \<times> string) option" where
  "parseNumber s =
     (let neg = (take 1 s = ''-'')
      in case parseDecimal (if neg then drop 1 s else s) of
           None \<Rightarrow> None
         | Some (c, rest) \<Rightarrow> Some (JNum (stringToNumber neg (decimalValue c)), rest))"

text \<open>
  An object is built from the members in text order as \<^verbatim>\<open>CreateDataProperty\<close> does it: a
  key that is already there keeps its place and takes the new value, a new key that is an
  array index goes before the keys that are not and among the indices in ascending order,
  any other new key goes last. This is the order in which JavaScript enumerates the
  properties, and in which \<open>JSON_stringify\<close> writes them.
\<close>

definition isArrayIndex :: "string \<Rightarrow> bool" where
  "isArrayIndex k =
     (k \<noteq> [] \<and> list_all isDigit k \<and> decimalDigits (digitsValue k) = k
      \<and> digitsValue k < 4294967295)"

definition precedes :: "string \<Rightarrow> string \<Rightarrow> bool" where
  "precedes k k' = (isArrayIndex k \<and> (\<not> isArrayIndex k' \<or> digitsValue k < digitsValue k'))"

fun insertNew :: "string \<times> json \<Rightarrow> (string \<times> json) list \<Rightarrow> (string \<times> json) list" where
  "insertNew m [] = [m]"
| "insertNew m (x # xs) = (if precedes (fst m) (fst x) then m # x # xs else x # insertNew m xs)"

definition createDataProperty ::
  "(string \<times> json) list \<Rightarrow> string \<times> json \<Rightarrow> (string \<times> json) list" where
  "createDataProperty ms m =
     (if fst m \<in> set (map fst ms) then map (\<lambda>x. if fst x = fst m then m else x) ms
      else insertNew m ms)"

definition objectOf :: "(string \<times> json) list \<Rightarrow> (string \<times> json) list" where
  "objectOf ms = foldl createDataProperty [] ms"

text \<open>
  The recursive-descent reader. The first argument bounds the depth of the calls (the
  text's length is always enough, see \<open>JSON_parse\<close>). \<open>parseValue\<close> skips the white
  space before and after the value; \<open>parseElements\<close> and \<open>parseMembers\<close> read what
  follows the first element of an array or the first member of an object.
\<close>

fun parseValue :: "nat \<Rightarrow> string \<Rightarrow> (json \<times> string) option"
  and parseElements :: "nat \<Rightarrow> string \<Rightarrow> (json list \<times> string) option"
  and parseMember :: "nat \<Rightarrow> string \<Rightarrow> ((string \<times> json) \<times> string) option"
  and parseMembers :: "nat \<Rightarrow> string \<Rightarrow> ((string \<times> json) list \<times> string) option"
where
  "parseValue 0 s = None"
| "parseValue (Suc n) s =
     (let t = skipWs s in
      if take 4 t = ''null'' then Some (JNull, skipWs (drop 4 t))
      else if take 4 t = ''true'' then Some (JBool True, skipWs (drop 4 t))
      else if take 5 t = ''false'' then Some (JBool False, skipWs (drop 5 t))
      else if take 1 t = [dquote] then
        (case parseString (drop 1 t) of
           None \<Rightarrow> None
         | Some (str, rest) \<Rightarrow> Some (JStr str, skipWs rest))
      else if take 1 t = ''['' then
        (if take 1 (skipWs (drop 1 t)) = '']''
         then Some (JArr [], skipWs (drop 1 (skipWs (drop 1 t))))
         else
          (case parseValue n (drop 1 t) of
             None \<Rightarrow> None
           | Some (v, rest) \<Rightarrow>
               (case parseElements n rest of
                  None \<Rightarrow> None
                | Some (vs, rest') \<Rightarrow> Some (JArr (v # vs), rest'))))
      else if take 1 t = ''{'' then
        (if take 1 (skipWs (drop 1 t)) = ''}''
         then Some (JObj [], skipWs (drop 1 (skipWs (drop 1 t))))
         else
          (case parseMember n (drop 1 t) of
             None \<Rightarrow> None
           | Some (m, rest) \<Rightarrow>
               (case parseMembers n rest of
                  None \<Rightarrow> None
                | Some (ms, rest') \<Rightarrow> Some (JObj (objectOf (m # ms)), rest'))))
      else
        (case parseNumber t of
           None \<Rightarrow> None
         | Some (v, rest) \<Rightarrow> Some (v, skipWs rest)))"
| "parseElements 0 s = None"
| "parseElements (Suc n) s =
     (if take 1 s = '']'' then Some ([], skipWs (drop 1 s))
      else if take 1 s = '','' then
        (case parseValue n (drop 1 s) of
           None \<Rightarrow> None
         | Some (v, rest) \<Rightarrow>
             (case parseElements n rest of
                None \<Rightarrow> None
              | Some (vs, rest') \<Rightarrow> Some (v # vs, rest')))
      else None)"
| "parseMember 0 s = None"
| "parseMember (Suc n) s =
     (let t = skipWs s in
      if take 1 t = [dquote] then
        (case parseString (drop 1 t) of
           None \<Rightarrow> None
         | Some (k, rest) \<Rightarrow>
             if take 1 (skipWs rest) = '':'' then
               (case parseValue n (drop 1 (skipWs rest)) of
                  None \<Rightarrow> None
                | Some (v, rest') \<Rightarrow> Some ((k, v), rest'))
             else None)
      else None)"
| "parseMembers 0 s = None"
| "parseMembers (Suc n) s =
     (if take 1 s = ''}'' then Some ([], skipWs (drop 1 s))
      else if take 1 s = '','' then
        (case parseMember n (drop 1 s) of
           None \<Rightarrow> None
         | Some (m, rest) \<Rightarrow>
             (case parseMembers n rest of
                None \<Rightarrow> None
              | Some (ms, rest') \<Rightarrow> Some (m # ms, rest')))
      else None)"

definition JSON_parse :: "string \<Rightarrow> json option" where
  "JSON_parse s =
     (case parseValue (Suc (length s)) s of
        Some (v, []) \<Rightarrow> Some v
      | _ \<Rightarrow> None)"

text \<open>JavaScript's truthiness of a value, as \<^verbatim>\<open>entry.metadata ? ... : ...\<close> tests it.\<close>

fun truthy :: "json \<Rightarrow> bool" where
  "truthy JNull = False"
| "truthy (JBool b) = b"
| "truthy (JNum x) = (x \<noteq> Finite 0 \<and> x \<noteq> NegZero \<and> x \<noteq> NaN)"
| "truthy (JStr s) = (s \<noteq> [])"
| "truthy (JArr xs) = True"
| "truthy (JObj ms) = True"


section \<open>Backoff (src/utils/backoff.ts)\<close>

fun calculateBackoffDelay :: "RetryStrategy \<Rightarrow> int \<Rightarrow> rat option" where
  "calculateBackoffDelay (Fixed delayMs maxAttempts) attempt =
     (if attempt \<ge> maxAttempts then None else Some delayMs)"
| "calculateBackoffDelay (Exponential baseMs maxMs maxAttempts) attempt =
     (if attempt \<ge> maxAttempts then None
      else (let delay = baseMs * 2 powi (attempt - 1) in Some (min delay maxMs)))"
| "calculateBackoffDelay Manual attempt = None"

fun canRetry :: "RetryStrategy \<Rightarrow> int \<Rightarrow> bool" where
  "canRetry Manual attempt = True"
| "canRetry (Fixed delayMs maxAttempts) attempt = (attempt < maxAttempts)"
| "canRetry (Exponential baseMs maxMs maxAttempts) attempt = (attempt < maxAttempts)"

definition DEFAULT_RETRY_STRATEGY :: RetryStrategy where
  "DEFAULT_RETRY_STRATEGY = Exponential 1000 30000 3"

section \<open>The IndexedDB object store\<close>

text \<open>
  The object store of src/storage/indexeddb.ts is created with \<^verbatim>\<open>keyPath: 'id'\<close> and an
  index on \<^verbatim>\<open>createdAt\<close>. It is modelled as the list of its records, one per id;
  \<open>objectStore_get\<close>, \<open>objectStore_add\<close>, \<open>objectStore_put\<close>, \<open>objectStore_delete\<close>
  and \<open>objectStore_count\<close> are the platform's \<^verbatim>\<open>IDBObjectStore\<close> requests.
  \<open>index_createdAt\<close> is the order in which the index hands the records out
  (\<^verbatim>\<open>index.getAll()\<close>, \<^verbatim>\<open>index.openCursor()\<close>): ascending by \<^verbatim>\<open>createdAt\<close>, records
  with equal \<^verbatim>\<open>createdAt\<close> ascending by primary key.
\<close>

type_synonym objectStore = "StoredEntry list"

definition objectStore_get :: "string \<Rightarrow> objectStore \<Rightarrow> StoredEntry option" where
  "objectStore_get k s = find (\<lambda>r. id' r = k) s"

definition objectStore_add :: "StoredEntry \<Rightarrow> objectStore \<Rightarrow> objectStore option" where
  "objectStore_add r s = (if objectStore_get (id' r) s = None then Some (s @ [r]) else None)"

definition objectStore_put :: "StoredEntry \<Rightarrow> objectStore \<Rightarrow> objectStore" where
  "objectStore_put r s =
     (if objectStore_get (id' r) s = None then s @ [r]
      else map (\<lambda>x. if id' x = id' r then r else x) s)"

definition objectStore_delete :: "string \<Rightarrow> objectStore \<Rightarrow> objectStore" where
  "objectStore_delete k s = filter (\<lambda>r. id' r \<noteq> k) s"

definition objectStore_count :: "objectStore \<Rightarrow> nat" where
  "objectStore_count s = length s"

definition index_createdAt :: "objectStore \<Rightarrow> StoredEntry list" where
  "index_createdAt s = sort_key (\<lambda>r. (createdAt r, id' r)) s"

section \<open>The storage adapter (src/storage/indexeddb.ts)\<close>

text \<open>The record \<^verbatim>\<open>put\<close> writes: the entry with its body and metadata as JSON text.\<close>

definition storedEntry :: "LedgerEntry \<Rightarrow> StoredEntry" where
  "storedEntry entry =
     \<lparr> id' = id' entry,
       request = \<lparr> url = url (request entry), method' = method' (request entry),
                   headers = headers (request entry),
                   body = map_option JSON_stringify (body (request entry)) \<rparr>,
       status = status entry,
       attemptCount = attemptCount entry,
       createdAt = createdAt entry,
       lastAttemptAt = lastAttemptAt entry,
       error = error entry,
       idempotencyKey = idempotencyKey entry,
       metadata = (case metadata entry of
                     None \<Rightarrow> None
                   | Some m \<Rightarrow> if truthy m then Some (JSON_stringify m) else None) \<rparr>"

text \<open>
  The cursor loop of \<^verbatim>\<open>evictIfNeeded\<close>: the first argument is what the cursor has still
  to visit, in index order.
\<close>

fun cursorLoop :: "StoredEntry list \<Rightarrow> nat \<Rightarrow> nat \<Rightarrow> objectStore \<Rightarrow> objectStore" where
  "cursorLoop [] deleted toDelete s = s"
| "cursorLoop (cur # rest) deleted toDelete s =
     (if deleted < toDelete
      then cursorLoop rest (deleted + 1) toDelete (objectStore_delete (id' cur) s)
      else s)"

definition evictIfNeeded :: "nat \<Rightarrow> objectStore \<Rightarrow> objectStore" where
  "evictIfNeeded maxEntries s =
     (let cnt = objectStore_count s in
      if cnt \<le> maxEntries then s
      else (let toDelete = cnt - maxEntries in
            cursorLoop (index_createdAt s) 0 toDelete s))"

definition put :: "nat \<Rightarrow> LedgerEntry \<Rightarrow> objectStore \<Rightarrow> error + objectStore" where
  "put maxEntries entry s =
     (case objectStore_get (id' entry) s of
        Some existing \<Rightarrow> Inl (DuplicateEntryError (id' entry))
      | None \<Rightarrow>
          (case objectStore_add (storedEntry entry) s of
             None \<Rightarrow> Inl (PersistenceError ''Failed to add entry'' None)
           | Some s1 \<Rightarrow> Inr (evictIfNeeded maxEntries s1)))"

text \<open>\<^verbatim>\<open>x ? JSON.parse(x) : undefined\<close> on a stored text.\<close>

definition parseIfPresent :: "string option \<Rightarrow> error + json option" where
  "parseIfPresent x =
     (case x of
        None \<Rightarrow> Inr None
      | Some t \<Rightarrow>
          if t = [] then Inr None
          else (case JSON_parse t of
                  None \<Rightarrow> Inl (SyntaxError ''JSON.parse'')
                | Some v \<Rightarrow> Inr (Some v)))"

definition deserializeEntry :: "StoredEntry \<Rightarrow> error + LedgerEntry" where
  "deserializeEntry stored =
     (case parseIfPresent (body (request stored)) of
        Inl e \<Rightarrow> Inl e
      | Inr b \<Rightarrow>
          (case parseIfPresent (metadata stored) of
             Inl e \<Rightarrow> Inl e
           | Inr m \<Rightarrow>
               Inr \<lparr> id' = id' stored,
                     request = \<lparr> url = url (request stored), method' = method' (request stored),
                                 headers = headers (request stored), body = b \<rparr>,
                     status = status stored,
                     attemptCount = attemptCount stored,
                     createdAt = createdAt stored,
                     lastAttemptAt = lastAttemptAt stored,
                     error = error stored,
                     idempotencyKey = idempotencyKey stored,
                     metadata = m \<rparr>))"

text \<open>\<^verbatim>\<open>Array.prototype.map\<close> with a function that may throw: the first exception wins.\<close>

fun mapThrowing :: "('a \<Rightarrow> error + 'b) \<Rightarrow> 'a list \<Rightarrow> error + 'b list" where
  "mapThrowing f [] = Inr []"
| "mapThrowing f (x # xs) =
     (case f x of
        Inl e \<Rightarrow> Inl e
      | Inr y \<Rightarrow> (case mapThrowing f xs of Inl e \<Rightarrow> Inl e | Inr ys \<Rightarrow> Inr (y # ys)))"

definition getAll :: "objectStore \<Rightarrow> error + LedgerEntry list" where
  "getAll s = mapThrowing deserializeEntry (index_createdAt s)"

definition get :: "string \<Rightarrow> objectStore \<Rightarrow> error + LedgerEntry option" where
  "get k s =
     (case objectStore_get k s of
        None \<Rightarrow> Inr None
      | Some r \<Rightarrow> (case deserializeEntry r of Inl e \<Rightarrow> Inl e | Inr entry \<Rightarrow> Inr (Some entry)))"

text \<open>The merge of a patch into the existing record, as \<^verbatim>\<open>update\<close> performs it.\<close>

definition mergePatch :: "LedgerEntryPatch \<Rightarrow> StoredEntry \<Rightarrow> StoredEntry" where
  "mergePatch patch existing =
     (let u1 = (case patch_status patch of None \<Rightarrow> existing | Some v \<Rightarrow> existing\<lparr>status := v\<rparr>);
          u2 = (case patch_attemptCount patch of None \<Rightarrow> u1 | Some v \<Rightarrow> u1\<lparr>attemptCount := v\<rparr>);
          u3 = (case patch_lastAttemptAt patch of None \<Rightarrow> u2 | Some v \<Rightarrow> u2\<lparr>lastAttemptAt := Some v\<rparr>)
      in (case patch_error patch of
            None \<Rightarrow> u3
          | Some None \<Rightarrow> u3\<lparr>error := None\<rparr>
          | Some (Some e) \<Rightarrow> u3\<lparr>error := Some e\<rparr>))"

definition update :: "string \<Rightarrow> LedgerEntryPatch \<Rightarrow> objectStore \<Rightarrow> error + objectStore" where
  "update k patch s =
     (case objectStore_get k s of
        None \<Rightarrow> Inl (EntryNotFoundError k)
      | Some existing \<Rightarrow> Inr (objectStore_put (mergePatch patch existing) s))"

definition remove :: "string \<Rightarrow> objectStore \<Rightarrow> objectStore" where
  "remove k s = objectStore_delete k s"

definition clear :: "objectStore \<Rightarrow> objectStore" where
  "clear s = []"

definition count :: "objectStore \<Rightarrow> nat" where
  "count s = objectStore_count s"

section \<open>The world the engine and the facade act on\<close>

text \<open>
  The calls to the storage adapter, to the connectivity check, to \<^verbatim>\<open>fetch\<close>, to
  \<^verbatim>\<open>delay\<close> and to the hooks and callbacks are effects. The world holds the adapter
  (its capacity bound and its object store) and a journal of the effects performed so far,
  oldest first.
\<close>

datatype storageCall =
    CallPut string
  | CallGetAll
  | CallGet string
  | CallUpdate string LedgerEntryPatch
  | CallRemove string

datatype event =
    EvOnlineCheck
  | EvFetch string
  | EvStorage storageCall
  | EvDelay rat
  | EvHook string string

record world =
  maxEntries :: nat
  store :: objectStore
  journal :: "event list"

text \<open>
  What the external collaborators answer. Each answer is indexed by the length of the
  journal at the moment of the call: the connectivity check, the outcome of one
  execution attempt (building the request and \<^verbatim>\<open>fetch\<close>: a response, or the exception
  thrown), and \<^verbatim>\<open>Date.now()\<close>.
\<close>

record env =
  env_onlineCheck :: "nat \<Rightarrow> bool"
  env_fetch :: "nat \<Rightarrow> error + Response"
  env_now :: "nat \<Rightarrow> int"

definition emit :: "event \<Rightarrow> world \<Rightarrow> world" where
  "emit ev w = w\<lparr>journal := journal w @ [ev]\<rparr>"


definition storage_getAll :: "world \<Rightarrow> (error + LedgerEntry list) \<times> world" where
  "storage_getAll w = (let w1 = emit (EvStorage CallGetAll) w in (getAll (store w1), w1))"

definition storage_get :: "string \<Rightarrow> world \<Rightarrow> (error + LedgerEntry option) \<times> world" where
  "storage_get k w = (let w1 = emit (EvStorage (CallGet k)) w in (get k (store w1), w1))"

definition storage_update :: "string \<Rightarrow> LedgerEntryPatch \<Rightarrow> world \<Rightarrow> (error + unit) \<times> world" where
  "storage_update k patch w =
     (let w1 = emit (EvStorage (CallUpdate k patch)) w in
      case update k patch (store w1) of
        Inl e \<Rightarrow> (Inl e, w1)
      | Inr s \<Rightarrow> (Inr (), w1\<lparr>store := s\<rparr>))"

definition storage_remove :: "string \<Rightarrow> world \<Rightarrow> world" where
  "storage_remove k w =
     (let w1 = emit (EvStorage (CallRemove k)) w in w1\<lparr>store := remove k (store w1)\<rparr>)"

definition onlineCheck :: "env \<Rightarrow> world \<Rightarrow> bool \<times> world" where
  "onlineCheck ev w = (env_onlineCheck ev (length (journal w)), emit EvOnlineCheck w)"

definition fetch :: "env \<Rightarrow> string \<Rightarrow> world \<Rightarrow> (error + Response) \<times> world" where
  "fetch ev u w = (env_fetch ev (length (journal w)), emit (EvFetch u) w)"

definition hook :: "string \<Rightarrow> string \<Rightarrow> world \<Rightarrow> world" where
  "hook name k w = emit (EvHook name k) w"

section \<open>Error classification (src/online/checker.ts)\<close>

definition toLowerCase :: "string \<Rightarrow> string" where
  "toLowerCase s =
     map (\<lambda>c. if 65 \<le> (of_char c :: nat) \<and> (of_char c :: nat) \<le> 90
               then char_of ((of_char c :: nat) + 32) else c) s"

fun errorMessage :: "error \<Rightarrow> string" where
  "errorMessage (Error m) = m"
| "errorMessage (TypeError m) = m"
| "errorMessage (DOMException name m) = m"
| "errorMessage (SyntaxError m) = m"
| "errorMessage (PersistenceError m cause) = m"
| "errorMessage (NetworkError m cause) = m"
| "errorMessage (EntryNotFoundError k) = ''Entry not found: '' @ k"
| "errorMessage (DuplicateEntryError k) = ''Duplicate entry: '' @ k"

fun isNetworkError :: "error \<Rightarrow> bool" where
  "isNetworkError (TypeError m) =
     (let msg = toLowerCase m in
      msg = ''failed to fetch'' \<or> msg = ''network request failed'' \<or> msg = ''load failed''
      \<or> msg = ''networkerror'' \<or> take 17 msg = ''networkerror when'')"
| "isNetworkError (DOMException name m) = (name = ''AbortError'')"
| "isNetworkError e = False"

definition isRetryableStatusCode :: "nat \<Rightarrow> bool" where
  "isRetryableStatusCode st = (st \<ge> 500 \<and> st < 600)"

definition isClientError :: "nat \<Rightarrow> bool" where
  "isClientError st = (st \<ge> 400 \<and> st < 500)"

section \<open>The replay engine\<close>

record engine =
  isProcessing :: bool
  isPaused :: bool
  lastError :: "error option"
  abortController :: "bool option"

record ProcessOptions =
  concurrency :: nat
  stopOnError :: bool

definition canRetryEntry :: "RetryStrategy \<Rightarrow> LedgerEntry \<Rightarrow> bool" where
  "canRetryEntry strategy entry =
     (case strategy of
        Manual \<Rightarrow> False
      | Fixed d maxAttempts \<Rightarrow> attemptCount entry + 1 < maxAttempts
      | Exponential b m maxAttempts \<Rightarrow> attemptCount entry + 1 < maxAttempts)"

definition markAsFailed ::
  "LedgerEntry \<Rightarrow> error \<Rightarrow> string option \<Rightarrow> world \<Rightarrow> (error + unit) \<times> world" where
  "markAsFailed entry err c w =
     storage_update (id' entry)
       \<lparr> patch_status = Some Failed, patch_attemptCount = None, patch_lastAttemptAt = None,
         patch_error = Some (Some \<lparr> message = errorMessage err, code = c \<rparr>) \<rparr> w"

definition pendingPatch :: LedgerEntryPatch where
  "pendingPatch =
     \<lparr> patch_status = Some Pending, patch_attemptCount = None, patch_lastAttemptAt = None,
       patch_error = None \<rparr>"

text \<open>
  \<^verbatim>\<open>calculateBackoffDelay\<close> followed by \<^verbatim>\<open>delay\<close> when the answer is not
  \<^verbatim>\<open>null\<close>.
\<close>

definition backoffWait :: "RetryStrategy \<Rightarrow> LedgerEntry \<Rightarrow> world \<Rightarrow> world" where
  "backoffWait strategy entry w =
     (case calculateBackoffDelay strategy (attemptCount entry + 1) of
        None \<Rightarrow> w
      | Some backoffDelay \<Rightarrow> emit (EvDelay backoffDelay) w)"

text \<open>
  The \<^verbatim>\<open>catch\<close> block of \<^verbatim>\<open>processEntry\<close>: every exception thrown inside the
  \<^verbatim>\<open>try\<close> block arrives here, also the ones the block throws itself.
\<close>

definition processEntry_catch ::
  "RetryStrategy \<Rightarrow> LedgerEntry \<Rightarrow> error \<Rightarrow> world \<Rightarrow> (error + unit) \<times> world" where
  "processEntry_catch strategy entry err w =
     (if isNetworkError err then
        (if canRetryEntry strategy entry then
           (case storage_update (id' entry) pendingPatch w of
              (Inl e, w1) \<Rightarrow> (Inl e, w1)
            | (Inr u, w1) \<Rightarrow> (Inl err, backoffWait strategy entry w1))
         else
           (let networkError = NetworkError ''Network error, max retries exceeded'' (Some err) in
            case markAsFailed entry networkError (Some ''NETWORK_ERROR'') w of
              (Inl e, w1) \<Rightarrow> (Inl e, w1)
            | (Inr u, w1) \<Rightarrow> (Inl err, hook ''onReplayFailure'' (id' entry) w1)))
      else (Inl err, w))"

definition processEntry ::
  "env \<Rightarrow> RetryStrategy \<Rightarrow> LedgerEntry \<Rightarrow> world \<Rightarrow> (error + unit) \<times> world" where
  "processEntry ev strategy entry w =
     (case storage_update (id' entry)
             \<lparr> patch_status = Some Processing,
               patch_attemptCount = Some (attemptCount entry + 1),
               patch_lastAttemptAt = Some (env_now ev (length (journal w))),
               patch_error = None \<rparr> w of
        (Inl e, w1) \<Rightarrow> (Inl e, w1)
      | (Inr u, w1) \<Rightarrow>
          (let w2 = hook ''onReplayStart'' (id' entry) w1 in
           case fetch ev (url (request entry)) w2 of
             (Inl thrown, w3) \<Rightarrow> processEntry_catch strategy entry thrown w3
           | (Inr response, w3) \<Rightarrow>
               (let st = http_status response in
                if isClientError st then
                  (let err = Error (''HTTP '' @ natToString st @ '': Client error'') in
                   case markAsFailed entry err (Some (natToString st)) w3 of
                     (Inl e, w4) \<Rightarrow> processEntry_catch strategy entry e w4
                   | (Inr u', w4) \<Rightarrow>
                       processEntry_catch strategy entry err
                         (hook ''onReplayFailure'' (id' entry) w4))
                else if isRetryableStatusCode st then
                  (if canRetryEntry strategy entry then
                     (case storage_update (id' entry) pendingPatch w3 of
                        (Inl e, w4) \<Rightarrow> processEntry_catch strategy entry e w4
                      | (Inr u', w4) \<Rightarrow>
                          processEntry_catch strategy entry
                            (Error (''HTTP '' @ natToString st @ '': Server error, will retry''))
                            (backoffWait strategy entry w4))
                   else
                     (let err = Error (''HTTP '' @ natToString st
                                        @ '': Server error, max retries exceeded'') in
                      case markAsFailed entry err (Some (natToString st)) w3 of
                        (Inl e, w4) \<Rightarrow> processEntry_catch strategy entry e w4
                      | (Inr u', w4) \<Rightarrow>
                          processEntry_catch strategy entry err
                            (hook ''onReplayFailure'' (id' entry) w4)))
                else (Inr (), hook ''onReplaySuccess'' (id' entry) w3))))"

text \<open>The loop of \<^verbatim>\<open>recoverStaleEntries\<close> over the entries \<^verbatim>\<open>getAll\<close> returned.\<close>

fun recoverLoop :: "LedgerEntry list \<Rightarrow> world \<Rightarrow> (error + unit) \<times> world" where
  "recoverLoop [] w = (Inr (), w)"
| "recoverLoop (entry # rest) w =
     (if status entry = Processing then
        (case storage_update (id' entry) pendingPatch w of
           (Inl e, w1) \<Rightarrow> (Inl e, w1)
         | (Inr u, w1) \<Rightarrow> recoverLoop rest w1)
      else recoverLoop rest w)"

definition recoverStaleEntries :: "world \<Rightarrow> (error + unit) \<times> world" where
  "recoverStaleEntries w =
     (case storage_getAll w of
        (Inl e, w1) \<Rightarrow> (Inl e, w1)
      | (Inr entries, w1) \<Rightarrow> recoverLoop entries w1)"

text \<open>
  \<^verbatim>\<open>Promise.allSettled(batch.map(entry => this.processEntry(entry)))\<close>. The attempts of a
  batch touch different records, so they are run here one after the other, in batch
  order; the result list is in batch order as \<^verbatim>\<open>allSettled\<close> gives it.
\<close>

fun processBatch ::
  "env \<Rightarrow> RetryStrategy \<Rightarrow> LedgerEntry list \<Rightarrow> world \<Rightarrow> (error + unit) list \<times> world" where
  "processBatch ev strategy [] w = ([], w)"
| "processBatch ev strategy (entry # rest) w =
     (case processEntry ev strategy entry w of
        (r, w1) \<Rightarrow> (case processBatch ev strategy rest w1 of (rs, w2) \<Rightarrow> (r # rs, w2)))"

text \<open>
  The loop over the results of a batch. It answers whether an attempt failed
  (\<^verbatim>\<open>hasError\<close>), or the exception that \<^verbatim>\<open>storage.get\<close> threw.
\<close>

fun handleResults ::
  "ProcessOptions \<Rightarrow> ((error + unit) \<times> LedgerEntry) list \<Rightarrow> bool \<Rightarrow> engine \<times> world
     \<Rightarrow> (error + bool) \<times> engine \<times> world" where
  "handleResults opts [] hasError (eng, w) = (Inr hasError, eng, w)"
| "handleResults opts ((Inr u, entry) # rest) hasError (eng, w) =
     handleResults opts rest hasError
       (eng, hook ''onSuccess'' (id' entry) (storage_remove (id' entry) w))"
| "handleResults opts ((Inl err, entry) # rest) hasError (eng, w) =
     (case storage_get (id' entry) w of
        (Inl e, w1) \<Rightarrow> (Inl e, eng, w1)
      | (Inr updatedEntry, w1) \<Rightarrow>
          (let w2 = (case updatedEntry of
                       None \<Rightarrow> w1
                     | Some x \<Rightarrow> hook ''onFailure'' (id' x) w1) in
           if stopOnError opts then (Inr True, eng\<lparr>lastError := Some err\<rparr>, w2)
           else handleResults opts rest True (eng, w2)))"

text \<open>
  The \<^verbatim>\<open>while\<close> loop of \<^verbatim>\<open>process\<close>. It may run for ever (while the connectivity
  check answers false), so the first argument bounds the number of iterations and
  \<open>None\<close> says the bound was reached. The result is the exception that left the loop,
  if one did.
\<close>

fun drainLoop ::
  "nat \<Rightarrow> env \<Rightarrow> RetryStrategy \<Rightarrow> ProcessOptions \<Rightarrow> engine \<times> world
     \<Rightarrow> ((error + unit) \<times> engine \<times> world) option" where
  "drainLoop 0 ev strategy opts (eng, w) = None"
| "drainLoop (Suc n) ev strategy opts (eng, w) =
     (if isPaused eng \<or> abortController eng = Some True then Some (Inr (), eng, w)
      else
        (case onlineCheck ev w of
           (online, w1) \<Rightarrow>
             if \<not> online then drainLoop n ev strategy opts (eng, emit (EvDelay 1000) w1)
             else
               (case storage_getAll w1 of
                  (Inl e, w2) \<Rightarrow> Some (Inl e, eng, w2)
                | (Inr entries, w2) \<Rightarrow>
                    (let pending = filter (\<lambda>e. status e = Pending) entries in
                     if pending = [] then Some (Inr (), eng, w2)
                     else
                       (let batch = take (concurrency opts) pending in
                        case processBatch ev strategy batch w2 of
                          (results, w3) \<Rightarrow>
                            (case handleResults opts (zip results batch) False (eng, w3) of
                               (Inl e, eng1, w4) \<Rightarrow> Some (Inl e, eng1, w4)
                             | (Inr hasError, eng1, w4) \<Rightarrow>
                                 if hasError \<and> stopOnError opts then Some (Inr (), eng1, w4)
                                 else drainLoop n ev strategy opts (eng1, w4)))))))"

text \<open>
  \<^verbatim>\<open>process\<close> in three parts. \<open>process_enter\<close> is the synchronous prefix: the guard on
  \<^verbatim>\<open>isProcessing\<close> (\<open>None\<close>: the call returns at once) and the three assignments.
  \<open>process_finally\<close> is the \<^verbatim>\<open>finally\<close> block.
\<close>

definition process_enter :: "engine \<Rightarrow> engine option" where
  "process_enter eng =
     (if isProcessing eng then None
      else Some (eng\<lparr>isProcessing := True, lastError := None, abortController := Some False\<rparr>))"

definition process_finally :: "engine \<Rightarrow> engine" where
  "process_finally eng = eng\<lparr>isProcessing := False, abortController := None\<rparr>"

definition process ::
  "nat \<Rightarrow> env \<Rightarrow> RetryStrategy \<Rightarrow> ProcessOptions \<Rightarrow> engine \<times> world
     \<Rightarrow> ((error + unit) \<times> engine \<times> world) option" where
  "process fuel ev strategy opts ew =
     (case ew of
        (eng, w) \<Rightarrow>
          (case process_enter eng of
             None \<Rightarrow> Some (Inr (), eng, w)
           | Some eng1 \<Rightarrow>
               (case recoverStaleEntries w of
                  (Inl e, w1) \<Rightarrow> Some (Inl e, process_finally eng1, w1)
                | (Inr u, w1) \<Rightarrow>
                    (case drainLoop fuel ev strategy opts (eng1, w1) of
                       None \<Rightarrow> None
                     | Some (r, eng2, w2) \<Rightarrow> Some (r, process_finally eng2, w2)))))"

definition pause :: "engine \<Rightarrow> engine" where
  "pause eng = eng\<lparr>isPaused := True, abortController := map_option (\<lambda>a. True) (abortController eng)\<rparr>"

definition resume :: "engine \<Rightarrow> engine" where
  "resume eng = eng\<lparr>isPaused := False\<rparr>"

definition newEngine :: engine where
  "newEngine = \<lparr> isProcessing = False, isPaused = False, lastError = None, abortController = None \<rparr>"

text \<open>
  The engine's flags under interleaved calls. JavaScript runs each synchronous stretch
  to its end, so calls of \<^verbatim>\<open>process\<close>, \<^verbatim>\<open>pause\<close> and \<^verbatim>\<open>resume\<close> interleave
  with a running loop only at its \<^verbatim>\<open>await\<close>s. A state of \<open>engineRun\<close> is the engine
  and the number of calls of \<^verbatim>\<open>process\<close> that have passed the guard and not yet left
  through \<^verbatim>\<open>finally\<close>: the active drain loops.
\<close>

inductive engineRun :: "engine \<times> nat \<Rightarrow> bool" where
  run_new: "engineRun (newEngine, 0)"
| run_enter: "engineRun (eng, k) \<Longrightarrow> process_enter eng = Some eng1 \<Longrightarrow> engineRun (eng1, Suc k)"
| run_ignored: "engineRun (eng, k) \<Longrightarrow> process_enter eng = None \<Longrightarrow> engineRun (eng, k)"
| run_lastError: "engineRun (eng, Suc k) \<Longrightarrow> engineRun (eng\<lparr>lastError := Some e\<rparr>, Suc k)"
| run_finally: "engineRun (eng, Suc k) \<Longrightarrow> engineRun (process_finally eng, k)"
| run_pause: "engineRun (eng, k) \<Longrightarrow> engineRun (pause eng, k)"
| run_resume: "engineRun (eng, k) \<Longrightarrow> engineRun (resume eng, k)"

section \<open>The ledger facade\<close>

record RequestOptions =
  opt_id :: string
  opt_url :: string
  opt_method :: HttpMethod
  opt_headers :: "(string \<times> string) list option"
  opt_body :: "json option"
  opt_idempotencyKey :: "string option"
  opt_metadata :: "json option"

record RequestLedger =
  isDestroyed :: bool
  retryStrategy :: RetryStrategy
  replayEngine :: engine

definition destroyedError :: error where
  "destroyedError = Error ''Ledger has been destroyed''"


definition newEntry :: "RequestOptions \<Rightarrow> int \<Rightarrow> LedgerEntry" where
  "newEntry options now =
     \<lparr> id' = opt_id options,
       request = \<lparr> url = opt_url options, method' = opt_method options,
                   headers = (case opt_headers options of None \<Rightarrow> [] | Some h \<Rightarrow> h),
                   body = opt_body options \<rparr>,
       status = Pending,
       attemptCount = 0,
       createdAt = now,
       lastAttemptAt = None,
       error = None,
       idempotencyKey = (case opt_idempotencyKey options of
                           None \<Rightarrow> None
                         | Some k \<Rightarrow> if k = [] then None else Some k),
       metadata = (case opt_metadata options of
                     None \<Rightarrow> None
                   | Some m \<Rightarrow> if truthy m then Some m else None) \<rparr>"



definition rearmPatch :: LedgerEntryPatch where
  "rearmPatch = \<lparr> patch_status = Some Pending, patch_attemptCount = None,
                  patch_lastAttemptAt = None, patch_error = Some None \<rparr>"

definition retry :: "string \<Rightarrow> RequestLedger \<Rightarrow> world \<Rightarrow> (error + unit) \<times> world" where
  "retry k ledger w =
     (if isDestroyed ledger then (Inl destroyedError, w)
      else
        (case storage_get k w of
           (Inl e, w1) \<Rightarrow> (Inl e, w1)
         | (Inr None, w1) \<Rightarrow> (Inl (Error (''Entry not found: '' @ k)), w1)
         | (Inr (Some entry), w1) \<Rightarrow>
             if status entry \<noteq> Failed
             then (Inl (Error (''Entry is not in failed state: '' @ k)), w1)
             else storage_update k rearmPatch w1))"

section \<open>Notions used in the statements\<close>

text \<open>
  What the collaborators answer to the calls a given operation makes from a world \<open>w\<close>.
  \<open>processEntry\<close> journals its first \<^verbatim>\<open>update\<close> and the \<^verbatim>\<open>onReplayStart\<close> hook before
  it calls \<^verbatim>\<open>fetch\<close>, and reads the clock for that first \<^verbatim>\<open>update\<close>; \<open>request'\<close>
  asks the connectivity check first and calls \<^verbatim>\<open>fetch\<close> next.
\<close>

definition attemptOutcome :: "env \<Rightarrow> world \<Rightarrow> error + Response" where
  "attemptOutcome ev w = env_fetch ev (length (journal w) + 2)"

definition attemptTime :: "env \<Rightarrow> world \<Rightarrow> int" where
  "attemptTime ev w = env_now ev (length (journal w))"








section \<open>Notions used in the proofs\<close>

text \<open>
  The patches \<open>processEntry\<close> and \<open>markAsFailed\<close> hand to \<^verbatim>\<open>update\<close>, and the world
  in which the \<^verbatim>\<open>try\<close> block of \<open>processEntry\<close> continues once the record \<open>r\<close> of the
  entry was marked as processing and \<^verbatim>\<open>fetch\<close> was called.
\<close>

definition processingPatch :: "LedgerEntry \<Rightarrow> int \<Rightarrow> LedgerEntryPatch" where
  "processingPatch entry now =
     \<lparr> patch_status = Some Processing, patch_attemptCount = Some (attemptCount entry + 1),
       patch_lastAttemptAt = Some now, patch_error = None \<rparr>"

definition failedPatch :: "string \<Rightarrow> string option \<Rightarrow> LedgerEntryPatch" where
  "failedPatch msg c =
     \<lparr> patch_status = Some Failed, patch_attemptCount = None, patch_lastAttemptAt = None,
       patch_error = Some (Some \<lparr> message = msg, code = c \<rparr>) \<rparr>"

definition started :: "env \<Rightarrow> LedgerEntry \<Rightarrow> StoredEntry \<Rightarrow> world \<Rightarrow> world" where
  "started ev entry r w =
     (emit (EvFetch (url (request entry)))
        (hook ''onReplayStart'' (id' entry)
           (emit (EvStorage (CallUpdate (id' entry) (processingPatch entry (attemptTime ev w)))) w)))
     \<lparr>store := objectStore_put (mergePatch (processingPatch entry (attemptTime ev w)) r) (store w)\<rparr>"

text \<open>What the recovery loop has done to a record after it visited the ids \<open>K\<close>.\<close>

definition markPending :: "string set \<Rightarrow> StoredEntry \<Rightarrow> StoredEntry" where
  "markPending K x = (if id' x \<in> K then x\<lparr>status := Pending\<rparr> else x)"

text \<open>
  The pieces of the text of an array and of an object that \<open>parseElements\<close>,
  \<open>parseMember\<close> and \<open>parseMembers\<close> read, the texts that may follow a value
  (nothing, a comma or a closing bracket), the characters a value's text may start with,
  and the property proved of every serialisable JSON value: its text, followed by such a
  text, is read back as the value, by every call whose bound exceeds the text's length.
\<close>

definition noDigitAhead :: "string \<Rightarrow> bool" where
  "noDigitAhead rest = (case rest of [] \<Rightarrow> True | c # cs \<Rightarrow> \<not> isDigit c)"

definition delimited :: "string \<Rightarrow> bool" where
  "delimited rest =
     (case rest of [] \<Rightarrow> True | c # cs \<Rightarrow> c = CHR '','' \<or> c = CHR '']'' \<or> c = CHR ''}'')"


definition elemsText :: "json list \<Rightarrow> string" where
  "elemsText xs = concat (map (\<lambda>x. CHR '','' # JSON_stringify x) xs) @ '']''"

definition memberText :: "string \<times> json \<Rightarrow> string" where
  "memberText m = quoteJSONString (fst m) @ CHR '':'' # JSON_stringify (snd m)"

definition membersText :: "(string \<times> json) list \<Rightarrow> string" where
  "membersText ms = concat (map (\<lambda>m. CHR '','' # memberText m) ms) @ ''}''"


section \<open>Example entries, stores and collaborators (tests/)\<close>

text \<open>
  The helper \<^verbatim>\<open>createEntry(id, { createdAt })\<close> of tests/storage.test.ts and the stores
  of its eviction test: three entries created at 1000, 2000, 3000, and the three newest
  after a fourth, created at 4000, was put into a store of capacity 3.
\<close>

definition createEntry :: "string \<Rightarrow> int \<Rightarrow> LedgerEntry" where
  "createEntry k t =
     \<lparr> id' = k,
       request = \<lparr> url = ''https://api.example.com/test'', method' = POST,
                   headers = [(''Content-Type'', ''application/json'')],
                   body = Some (JObj [(''test'', JStr ''data'')]) \<rparr>,
       status = Pending, attemptCount = 0, createdAt = t, lastAttemptAt = None,
       error = None, idempotencyKey = None, metadata = None \<rparr>"

definition threeEntries :: objectStore where
  "threeEntries = map storedEntry
     [createEntry ''test-1'' 1000, createEntry ''test-2'' 2000, createEntry ''test-3'' 3000]"

definition newerEntries :: objectStore where
  "newerEntries = map storedEntry
     [createEntry ''test-2'' 2000, createEntry ''test-3'' 3000, createEntry ''test-4'' 4000]"


definition failedEntry :: StoredEntry where
  "failedEntry = (storedEntry (createEntry ''test-1'' 1000))
     \<lparr> status := Failed, error := Some \<lparr> message = ''Test failure'', code = None \<rparr> \<rparr>"

definition noPatch :: LedgerEntryPatch where
  "noPatch = \<lparr> patch_status = None, patch_attemptCount = None, patch_lastAttemptAt = None,
              patch_error = None \<rparr>"

text \<open>
  A ledger with the default configuration, a request, and worlds: an empty store, a
  store with one pending entry, one with an entry that failed after three attempts, and
  one found after a crash, with a record left in \<open>Processing\<close>.
\<close>

definition exampleLedger :: RequestLedger where
  "exampleLedger = \<lparr> isDestroyed = False, retryStrategy = DEFAULT_RETRY_STRATEGY,
                     replayEngine = newEngine \<rparr>"



definition pendingWorld :: world where
  "pendingWorld = \<lparr> maxEntries = 10, store = [storedEntry (createEntry ''test-1'' 1000)],
                    journal = [] \<rparr>"

definition exhaustedEntry :: LedgerEntry where
  "exhaustedEntry = (createEntry ''test-1'' 1000)
     \<lparr> status := Failed, attemptCount := 3, lastAttemptAt := Some 4000,
       error := Some \<lparr> message = ''HTTP 503: Server error, max retries exceeded'',
                       code = Some ''503'' \<rparr> \<rparr>"

definition exhaustedWorld :: world where
  "exhaustedWorld = \<lparr> maxEntries = 10, store = [storedEntry exhaustedEntry], journal = [] \<rparr>"

definition crashedWorld :: world where
  "crashedWorld =
     \<lparr> maxEntries = 10,
       store = [(storedEntry (createEntry ''test-1'' 1000))\<lparr>status := Processing, attemptCount := 1\<rparr>,
                storedEntry (createEntry ''test-2'' 2000),
                failedEntry\<lparr>id' := ''test-3'', createdAt := 3000\<rparr>],
       journal = [] \<rparr>"



text \<open>
  An engine inside its drain loop, and collaborators: a network that answers every
  \<^verbatim>\<open>fetch\<close> with one status, one where every \<^verbatim>\<open>fetch\<close> throws, and one that is
  offline.
\<close>

definition busyEngine :: engine where
  "busyEngine = newEngine\<lparr>isProcessing := True, lastError := None, abortController := Some False\<rparr>"

definition respondWith :: "nat \<Rightarrow> env" where
  "respondWith st = \<lparr> env_onlineCheck = (\<lambda>t. True),
                      env_fetch = (\<lambda>t. Inr \<lparr> http_status = st \<rparr>),
                      env_now = (\<lambda>t. 5000) \<rparr>"



section \<open>Retry policy: the backoff delay\<close>

text \<open>
  Claim C3. For an exponential strategy and an attempt count \<open>n \<ge> 1\<close>,
  \<open>calculateBackoffDelay\<close> returns \<open>min (baseMs * 2^(n-1)) maxMs\<close> while
  \<open>n < maxAttempts\<close> and \<open>None\<close> (the source's \<^verbatim>\<open>null\<close>, stop) from
  \<open>maxAttempts\<close> on. With \<open>baseMs = 1000\<close>, \<open>maxMs = 10000\<close> and
  \<open>maxAttempts = 5\<close> the delays are 1000, 2000, 4000, 8000 for \<open>n = 1..4\<close> and the
  answer is stop for every \<open>n \<ge> 5\<close>.
\<close>

theorem calculateBackoffDelay_exponential:
  assumes "1 \<le> n"
  shows "calculateBackoffDelay (Exponential baseMs maxMs maxAttempts) n =
           (if n < maxAttempts then Some (min (baseMs * 2 ^ nat (n - 1)) maxMs) else None)
         \<and> calculateBackoffDelay (Exponential 1000 10000 5) 1 = Some 1000
         \<and> calculateBackoffDelay (Exponential 1000 10000 5) 2 = Some 2000
         \<and> calculateBackoffDelay (Exponential 1000 10000 5) 3 = Some 4000
         \<and> calculateBackoffDelay (Exponential 1000 10000 5) 4 = Some 8000
         \<and> (5 \<le> n \<longrightarrow> calculateBackoffDelay (Exponential 1000 10000 5) n = None)"
proof -
  from assms have "(2::rat) powi (n - 1) = 2 ^ nat (n - 1)"
    by (simp add: power_int_def)
  then show ?thesis
    by (simp add: Let_def)
qed

theorem calculateBackoffDelay_exponential_witness:
  "calculateBackoffDelay (Exponential 1000 10000 5) 3 = Some 4000
   \<and> calculateBackoffDelay (Exponential 1000 10000 5) 7 = None
   \<and> calculateBackoffDelay (Exponential 300 1000 9) 3 = Some 1000"
  using calculateBackoffDelay_exponential [of 3 1000 10000 5]
    calculateBackoffDelay_exponential [of 7 1000 10000 5]
    calculateBackoffDelay_exponential [of 3 300 1000 9]
  by simp

section \<open>The object store\<close>

lemma storedEntry_fields [simp]:
  "id' (storedEntry e) = id' e"
  "createdAt (storedEntry e) = createdAt e"
  "status (storedEntry e) = status e"
  "attemptCount (storedEntry e) = attemptCount e"
  "lastAttemptAt (storedEntry e) = lastAttemptAt e"
  "error (storedEntry e) = error e"
  "idempotencyKey (storedEntry e) = idempotencyKey e"
  by (simp_all add: storedEntry_def)

lemma objectStore_get_SomeD:
  "objectStore_get k s = Some r \<Longrightarrow> id' r = k \<and> r \<in> set s"
  unfolding objectStore_get_def
  by (induction s) (auto split: if_splits)

lemma objectStore_get_None_iff:
  "objectStore_get k s = None \<longleftrightarrow> k \<notin> id' ` set s"
  unfolding objectStore_get_def
  by (induction s) auto

lemma objectStore_get_map:
  assumes "\<And>x. id' (f x) = id' x"
  shows "objectStore_get k (map f s) = map_option f (objectStore_get k s)"
  unfolding objectStore_get_def
  using assms by (induction s) auto

lemma objectStore_get_put:
  "objectStore_get k (objectStore_put r s) = (if k = id' r then Some r else objectStore_get k s)"
proof (cases "objectStore_get (id' r) s = None")
  case True
  then show ?thesis
    unfolding objectStore_put_def objectStore_get_def
    by (induction s) (auto split: if_splits)
next
  case False
  have "find (\<lambda>x. id' x = k) (map (\<lambda>x. if id' x = id' r then r else x) s)
        = (if k = id' r then (if find (\<lambda>x. id' x = id' r) s = None then None else Some r)
           else find (\<lambda>x. id' x = k) s)"
    by (induction s) auto
  with False show ?thesis
    unfolding objectStore_put_def objectStore_get_def by auto
qed

lemma objectStore_get_put_same:
  "objectStore_get (id' r) (objectStore_put r s) = Some r"
  by (simp add: objectStore_get_put)

lemma objectStore_get_append_new:
  assumes "objectStore_get (id' r) s = None"
  shows "objectStore_get (id' r) (s @ [r]) = Some r"
  using assms unfolding objectStore_get_def by (induction s) (auto split: if_splits)

lemma id'_mergePatch [simp]: "id' (mergePatch patch r) = id' r"
  by (simp add: mergePatch_def Let_def split: option.splits)

lemma error_mergePatch:
  "error (mergePatch patch r) =
     (case patch_error patch of None \<Rightarrow> error r | Some None \<Rightarrow> None | Some (Some e) \<Rightarrow> Some e)"
  by (simp add: mergePatch_def Let_def split: option.splits)

lemma mergePatch_rearm: "mergePatch rearmPatch r = r\<lparr>status := Pending, error := None\<rparr>"
  by (simp add: mergePatch_def rearmPatch_def)

lemma mergePatch_processing:
  "mergePatch (processingPatch entry now) r =
     r\<lparr>status := Processing, attemptCount := attemptCount entry + 1, lastAttemptAt := Some now\<rparr>"
  by (simp add: mergePatch_def processingPatch_def)

lemma mergePatch_pending: "mergePatch pendingPatch r = r\<lparr>status := Pending\<rparr>"
  by (simp add: mergePatch_def pendingPatch_def)

lemma mergePatch_failed:
  "mergePatch (failedPatch msg c) r = r\<lparr>status := Failed, error := Some \<lparr> message = msg, code = c \<rparr>\<rparr>"
  by (simp add: mergePatch_def failedPatch_def)

lemma update_existing:
  assumes "objectStore_get k s = Some existing"
  shows "update k patch s = Inr (objectStore_put (mergePatch patch existing) s)"
    and "objectStore_get k (objectStore_put (mergePatch patch existing) s) = Some (mergePatch patch existing)"
  using assms objectStore_get_SomeD [OF assms]
  by (simp_all add: update_def objectStore_get_put)

section \<open>Partial updates\<close>

text \<open>
  Claim C7. For an existing entry, \<open>update\<close> succeeds and treats the \<^verbatim>\<open>error\<close> key
  of the patch in three ways: a key that is present with the value \<^verbatim>\<open>undefined\<close>
  (\<open>Some None\<close>) removes the stored error, a missing key (\<open>None\<close>) leaves the stored
  error as it was, and a key with an error replaces the stored error by it.
\<close>

theorem update_error_field:
  assumes "objectStore_get k s = Some existing"
  shows "\<exists>s' r. update k patch s = Inr s' \<and> objectStore_get k s' = Some r
           \<and> (patch_error patch = Some None \<longrightarrow> error r = None)
           \<and> (patch_error patch = None \<longrightarrow> error r = error existing)
           \<and> (\<forall>e. patch_error patch = Some (Some e) \<longrightarrow> error r = Some e)"
  using update_existing [OF assms, of patch]
  by (auto simp: error_mergePatch)

theorem update_error_field_witness:
  "objectStore_get ''test-1'' [failedEntry] = Some failedEntry
   \<and> (\<exists>s' r. update ''test-1'' (noPatch\<lparr>patch_error := Some None\<rparr>) [failedEntry] = Inr s'
         \<and> objectStore_get ''test-1'' s' = Some r \<and> error r = None)
   \<and> (\<exists>s' r. update ''test-1'' (noPatch\<lparr>patch_status := Some Pending\<rparr>) [failedEntry] = Inr s'
         \<and> objectStore_get ''test-1'' s' = Some r
         \<and> error r = Some \<lparr> message = ''Test failure'', code = None \<rparr>)
   \<and> (\<exists>s' r. update ''test-1''
                 (noPatch\<lparr>patch_error := Some (Some \<lparr> message = ''HTTP 404'', code = Some ''404'' \<rparr>)\<rparr>)
                 [failedEntry] = Inr s'
         \<and> objectStore_get ''test-1'' s' = Some r
         \<and> error r = Some \<lparr> message = ''HTTP 404'', code = Some ''404'' \<rparr>)"
proof -
  have h: "objectStore_get ''test-1'' [failedEntry] = Some failedEntry"
    by (simp add: objectStore_get_def failedEntry_def createEntry_def)
  have e: "error failedEntry = Some \<lparr> message = ''Test failure'', code = None \<rparr>"
    by (simp add: failedEntry_def)
  show ?thesis
    using h e
      update_error_field [OF h, of "noPatch\<lparr>patch_error := Some None\<rparr>"]
      update_error_field [OF h, of "noPatch\<lparr>patch_status := Some Pending\<rparr>"]
      update_error_field [OF h,
        of "noPatch\<lparr>patch_error := Some (Some \<lparr> message = ''HTTP 404'', code = Some ''404'' \<rparr>)\<rparr>"]
    by (simp add: noPatch_def)
qed

section \<open>Eviction\<close>

lemma cursorLoop_filter:
  "cursorLoop cs d n s = filter (\<lambda>r. id' r \<notin> id' ` set (take (n - d) cs)) s"
proof (induction cs arbitrary: d s)
  case Nil
  then show ?case by simp
next
  case (Cons c cs)
  show ?case
  proof (cases "d < n")
    case True
    then have nd: "n - d = Suc (n - (d + 1))" by simp
    have "cursorLoop (c # cs) d n s = cursorLoop cs (d + 1) n (objectStore_delete (id' c) s)"
      using True by simp
    also have "\<dots> = filter (\<lambda>r. id' r \<notin> id' ` set (take (n - (d + 1)) cs))
                      (filter (\<lambda>r. id' r \<noteq> id' c) s)"
      by (simp only: Cons.IH objectStore_delete_def)
    also have "\<dots> = filter (\<lambda>r. id' r \<notin> id' ` set (c # take (n - (d + 1)) cs)) s"
      by (induction s) auto
    finally show ?thesis
      by (simp only: nd take_Suc_Cons)
  next
    case False
    then show ?thesis by simp
  qed
qed


lemma filter_not_in_take:
  assumes "distinct xs"
  shows "filter (\<lambda>x. x \<notin> set (take n xs)) xs = drop n xs"
proof -
  have "distinct (take n xs @ drop n xs)"
    using assms by simp
  then have disj: "\<And>x. x \<in> set (drop n xs) \<Longrightarrow> x \<notin> set (take n xs)"
    by (simp only: distinct_append) blast
  have a: "filter (\<lambda>x. x \<notin> set (take n xs)) (take n xs) = []"
    by (simp add: filter_empty_conv)
  have b: "filter (\<lambda>x. x \<notin> set (take n xs)) (drop n xs) = drop n xs"
    using disj by (simp add: filter_id_conv)
  have "filter (\<lambda>x. x \<notin> set (take n xs)) (take n xs @ drop n xs) = drop n xs"
    by (simp only: filter_append a b append_Nil)
  then show ?thesis
    by (simp only: append_take_drop_id)
qed

lemma set_index_createdAt [simp]: "set (index_createdAt s) = set s"
  by (simp add: index_createdAt_def)

lemma length_index_createdAt [simp]: "length (index_createdAt s) = length s"
  by (simp add: index_createdAt_def)

lemma distinct_index_createdAt [simp]: "distinct (index_createdAt s) = distinct s"
  by (simp add: index_createdAt_def)

lemma index_createdAt_filter:
  "index_createdAt (filter P s) = filter P (index_createdAt s)"
  by (simp add: index_createdAt_def filter_sort)

lemma evict_index:
  assumes dist: "distinct (map id' t)"
  shows "index_createdAt (cursorLoop (index_createdAt t) 0 n t) = drop n (index_createdAt t)"
proof -
  define idx where "idx = index_createdAt t"
  have sub: "set (take n idx) \<subseteq> set t"
    using set_take_subset [of n idx] by (simp add: idx_def)
  have inj: "inj_on id' (set t)" and dt: "distinct t"
    using dist by (simp_all add: distinct_map)
  have eq: "(id' r \<notin> id' ` set (take n idx)) = (r \<notin> set (take n idx))" if "r \<in> set t" for r
  proof -
    have "id' r \<in> id' ` set (take n idx) \<Longrightarrow> r \<in> set (take n idx)"
    proof -
      assume "id' r \<in> id' ` set (take n idx)"
      then obtain x where x: "x \<in> set (take n idx)" and e: "id' r = id' x"
        by blast
      from x sub have "x \<in> set t"
        by blast
      with inj that e have "r = x"
        by (simp add: inj_on_def)
      with x show ?thesis
        by simp
    qed
    then show ?thesis
      by blast
  qed
  have "cursorLoop idx 0 n t = filter (\<lambda>r. id' r \<notin> id' ` set (take n idx)) t"
    by (simp add: cursorLoop_filter)
  also have "\<dots> = filter (\<lambda>r. r \<notin> set (take n idx)) t"
    by (rule filter_cong [OF refl eq])
  finally have "index_createdAt (cursorLoop idx 0 n t) = filter (\<lambda>r. r \<notin> set (take n idx)) idx"
    by (simp only: index_createdAt_filter idx_def)
  also have "\<dots> = drop n idx"
    by (rule filter_not_in_take) (simp add: idx_def dt)
  finally show ?thesis
    by (simp only: idx_def)
qed

lemma index_sorted_take_drop:
  assumes "r \<in> set (take n (index_createdAt t))" and "k \<in> set (drop n (index_createdAt t))"
  shows "createdAt r \<le> createdAt k"
proof -
  define f where "f = (\<lambda>r::StoredEntry. (createdAt r, id' r))"
  define idx where "idx = index_createdAt t"
  have "sorted (map f idx)"
    by (simp add: idx_def f_def index_createdAt_def)
  then have "sorted (map f (take n idx @ drop n idx))"
    by simp
  then have "sorted (map f (take n idx) @ map f (drop n idx))"
    by (simp only: map_append)
  then have "\<forall>x \<in> set (map f (take n idx)). \<forall>y \<in> set (map f (drop n idx)). x \<le> y"
    unfolding sorted_append by blast
  moreover have "f r \<in> set (map f (take n idx))" and "f k \<in> set (map f (drop n idx))"
    using assms by (simp_all add: idx_def)
  ultimately have "f r \<le> f k"
    by blast
  then show ?thesis
    by (auto simp: f_def)
qed

lemma evictIfNeeded_room:
  "length s \<le> cap \<Longrightarrow> evictIfNeeded cap s = s"
  by (simp add: evictIfNeeded_def objectStore_count_def)


lemma put_room:
  assumes "objectStore_get (id' entry) s = None" and "length s < cap"
  shows "put cap entry s = Inr (s @ [storedEntry entry])"
  using assms by (simp add: put_def objectStore_add_def evictIfNeeded_room)


lemma put_full:
  assumes dist: "distinct (map id' s)"
    and fresh: "objectStore_get (id' entry) s = None"
    and full: "cap \<le> length s"
  shows "\<exists>s'. put cap entry s = Inr s'
           \<and> count s' = cap
           \<and> index_createdAt s'
               = drop (length s + 1 - cap) (index_createdAt (s @ [storedEntry entry]))
           \<and> set (s @ [storedEntry entry]) - set s'
               = set (take (length s + 1 - cap) (index_createdAt (s @ [storedEntry entry])))
           \<and> (\<forall>r \<in> set (s @ [storedEntry entry]) - set s'. \<forall>k \<in> set s'. createdAt r \<le> createdAt k)
           \<and> (0 < cap \<and> (\<forall>r \<in> set s. createdAt r < createdAt entry)
                \<longrightarrow> storedEntry entry \<in> set s')"
proof -
  define new where "new = storedEntry entry"
  define t where "t = s @ [new]"
  define n where "n = length s + 1 - cap"
  define idx where "idx = index_createdAt t"
  define s' where "s' = cursorLoop idx 0 n t"
  have distt: "distinct (map id' t)"
    using dist fresh by (simp add: t_def new_def objectStore_get_None_iff)
  have "objectStore_add new s = Some t"
    using fresh by (simp add: objectStore_add_def t_def new_def)
  moreover have "evictIfNeeded cap t = s'"
    using full by (simp add: evictIfNeeded_def objectStore_count_def Let_def s'_def idx_def n_def t_def)
  ultimately have put_eq: "put cap entry s = Inr s'"
    using fresh by (simp add: put_def new_def)
  have idx': "index_createdAt s' = drop n idx"
    unfolding s'_def idx_def by (rule evict_index [OF distt])
  have "set s' = set (index_createdAt s')"
    by simp
  then have set': "set s' = set (drop n idx)"
    by (simp only: idx')
  have "length s' = length (index_createdAt s')"
    by simp
  also have "\<dots> = length idx - n"
    by (simp only: idx' length_drop)
  also have "\<dots> = cap"
    using full by (simp add: idx_def t_def n_def)
  finally have len: "length s' = cap" .
  have "distinct t"
    using distt distinct_map by blast
  then have distidx: "distinct idx"
    by (simp add: idx_def)
  have "set t = set idx"
    by (simp add: idx_def)
  also have "\<dots> = set (take n idx @ drop n idx)"
    by simp
  finally have split: "set t = set (take n idx) \<union> set (drop n idx)"
    by (simp only: set_append)
  have "distinct (take n idx @ drop n idx)"
    using distidx by simp
  then have disj: "set (take n idx) \<inter> set (drop n idx) = {}"
    by (simp only: distinct_append)
  have removed: "set t - set s' = set (take n idx)"
    using split disj set' by blast
  have older: "createdAt r \<le> createdAt k" if "r \<in> set t - set s'" and "k \<in> set s'" for r k
  proof -
    from that(1) have "r \<in> set (take n (index_createdAt t))"
      by (simp only: removed idx_def)
    moreover from that(2) have "k \<in> set (drop n (index_createdAt t))"
      by (simp only: set' idx_def)
    ultimately show ?thesis
      by (rule index_sorted_take_drop)
  qed
  have newest: "new \<in> set s'"
    if pos: "0 < cap" and gt: "\<forall>r \<in> set s. createdAt r < createdAt entry"
  proof (rule ccontr)
    assume notin: "new \<notin> set s'"
    have "new \<in> set t"
      by (simp add: t_def)
    with notin have inrem: "new \<in> set t - set s'"
      by simp
    from len pos have "s' \<noteq> []"
      by auto
    then obtain k where k: "k \<in> set s'"
      using last_in_set by blast
    with notin have "k \<noteq> new"
      by auto
    moreover from k set' split have "k \<in> set t"
      by blast
    ultimately have "k \<in> set s"
      by (simp add: t_def)
    with gt have "createdAt k < createdAt entry"
      by blast
    moreover from older [OF inrem k] have "createdAt entry \<le> createdAt k"
      by (simp add: new_def)
    ultimately show False
      by simp
  qed
  have cnt: "count s' = cap"
    using len by (simp add: count_def objectStore_count_def)
  have "put cap entry s = Inr s' \<and> count s' = cap \<and> index_createdAt s' = drop n idx
        \<and> set t - set s' = set (take n idx)
        \<and> (\<forall>r \<in> set t - set s'. \<forall>k \<in> set s'. createdAt r \<le> createdAt k)
        \<and> (0 < cap \<and> (\<forall>r \<in> set s. createdAt r < createdAt entry) \<longrightarrow> new \<in> set s')"
    using put_eq cnt idx' removed older newest by blast
  then show ?thesis
    unfolding idx_def t_def n_def new_def by (rule exI)
qed




text \<open>
  Claim C4, as the code has it. Let the store hold one record per id, let the id of the
  entry be new and let the store already hold at least \<open>cap\<close> records, so that the
  \<open>put\<close> makes the count exceed the bound. Then \<open>put\<close> succeeds, the count afterwards
  is \<open>cap\<close>, and the records removed are exactly the first \<open>count - cap\<close> records in
  the order of the \<^verbatim>\<open>createdAt\<close> index of the store with the new record in it: no
  removed record was created after a record that is kept. The new record takes part in
  that order like every other one; it is certainly kept when \<open>cap\<close> is positive and it
  is newer than every record the store held.
\<close>

theorem put_evicts_oldest:
  assumes dist: "distinct (map id' s)"
    and fresh: "objectStore_get (id' entry) s = None"
    and full: "cap \<le> length s"
  shows "\<exists>s'. put cap entry s = Inr s'
           \<and> count s' = cap
           \<and> index_createdAt s'
               = drop (length s + 1 - cap) (index_createdAt (s @ [storedEntry entry]))
           \<and> set (s @ [storedEntry entry]) - set s'
               = set (take (length s + 1 - cap) (index_createdAt (s @ [storedEntry entry])))
           \<and> (\<forall>r \<in> set (s @ [storedEntry entry]) - set s'. \<forall>k \<in> set s'. createdAt r \<le> createdAt k)
           \<and> (0 < cap \<and> (\<forall>r \<in> set s. createdAt r < createdAt entry)
                \<longrightarrow> storedEntry entry \<in> set s')"
  by (rule put_full [OF dist fresh full])

theorem put_evicts_oldest_witness:
  "distinct (map id' threeEntries)
   \<and> objectStore_get (id' (createEntry ''test-4'' 4000)) threeEntries = None
   \<and> 3 \<le> length threeEntries
   \<and> put 3 (createEntry ''test-4'' 4000) threeEntries = Inr newerEntries
   \<and> (\<exists>s'. put 3 (createEntry ''test-4'' 4000) threeEntries = Inr s'
           \<and> count s' = 3
           \<and> storedEntry (createEntry ''test-4'' 4000) \<in> set s')"
proof -
  have h1: "distinct (map id' threeEntries)"
    by (simp add: threeEntries_def createEntry_def)
  have h2: "objectStore_get (id' (createEntry ''test-4'' 4000)) threeEntries = None"
    by (simp add: threeEntries_def createEntry_def objectStore_get_def)
  have h3: "3 \<le> length threeEntries"
    by (simp add: threeEntries_def)
  have h4: "\<forall>r \<in> set threeEntries. createdAt r < createdAt (createEntry ''test-4'' 4000)"
    by (simp add: threeEntries_def createEntry_def)
  have "put 3 (createEntry ''test-4'' 4000) threeEntries = Inr newerEntries"
    by code_simp
  with h1 h2 h3 h4 put_evicts_oldest [OF h1 h2 h3] show ?thesis
    by auto
qed

text \<open>
  The entry being inserted can be the one evicted. With capacity 3 and the entries
  created at 2000, 3000 and 4000 in the store, putting an entry created at 1000 succeeds
  and leaves the store as it was: the new entry is the oldest and is deleted at once.
  The same happens with capacity 1 when the new entry has the \<^verbatim>\<open>createdAt\<close> of the
  stored one and the smaller id.
\<close>

theorem put_evicts_inserted_counterexample:
  "put 3 (createEntry ''test-1'' 1000) newerEntries = Inr newerEntries
   \<and> get ''test-1'' newerEntries = Inr None
   \<and> put 1 (createEntry ''a'' 1000) [storedEntry (createEntry ''b'' 1000)]
       = Inr [storedEntry (createEntry ''b'' 1000)]"
  by code_simp

section \<open>JSON text read back: strings\<close>

lemma char_eq_code: "(c = d) = ((of_char c :: nat) = of_char d)"
  by simp

lemma hexVal_hexDigit:
  assumes "d < 16"
  shows "hexVal (hexDigit d) = Some d"
proof (cases "d < 10")
  case True
  then show ?thesis
    by (simp add: hexVal_def hexDigit_def Let_def)
next
  case False
  with assms show ?thesis
    by (simp add: hexVal_def hexDigit_def Let_def)
qed

lemma hexVal_zero: "hexVal (CHR ''0'') = Some 0"
  by (simp add: hexVal_def)

lemma unescapeU_control:
  assumes "(of_char c :: nat) < 32"
  shows "unescapeU (CHR ''0'') (CHR ''0'') (hexDigit ((of_char c :: nat) div 16))
           (hexDigit ((of_char c :: nat) mod 16)) = Some c"
proof -
  define k where "k = (of_char c :: nat)"
  have a: "hexVal (hexDigit (k div 16)) = Some (k div 16)"
    using assms by (intro hexVal_hexDigit) (simp add: k_def)
  have b: "hexVal (hexDigit (k mod 16)) = Some (k mod 16)"
    by (intro hexVal_hexDigit) simp
  have "16 * (k div 16) + k mod 16 = k"
    by simp
  moreover have "k < 256"
    using assms by (simp add: k_def)
  moreover have "char_of k = c"
    by (simp add: k_def)
  ultimately show ?thesis
    unfolding k_def [symmetric]
    by (simp add: unescapeU_def hexVal_zero a b Let_def)
qed

lemma parseString_escaped_char:
  assumes "parseString after = Some (s, rest)"
  shows "parseString (escapeChar c @ after) = Some (c # s, rest)"
proof -
  define k where "k = (of_char c :: nat)"
  have c: "c = char_of k"
    by (simp add: k_def)
  consider "k = 34" | "k = 92" | "k = 8" | "k = 12" | "k = 10" | "k = 13" | "k = 9"
    | "k < 32" "k \<noteq> 8" "k \<noteq> 12" "k \<noteq> 10" "k \<noteq> 13" "k \<noteq> 9"
    | "32 \<le> k" "k \<noteq> 34" "k \<noteq> 92"
    by linarith
  then show ?thesis
  proof cases
    case 1
    then have "c = dquote"
      by (simp add: char_eq_code [of c] k_def dquote_def backslash_def)
    then show ?thesis
      using assms
      by (simp add: escapeChar_def dquote_def backslash_def unescape_def consChar_def)
  next
    case 2
    then have "c = backslash"
      by (simp add: char_eq_code [of c] k_def dquote_def backslash_def)
    then show ?thesis
      using assms
      by (simp add: escapeChar_def dquote_def backslash_def unescape_def consChar_def)
  next
    case 3
    then have "c = CHR 0x08"
      by (simp add: char_eq_code [of c] k_def dquote_def backslash_def)
    then show ?thesis
      using assms
      by (simp add: escapeChar_def dquote_def backslash_def unescape_def consChar_def)
  next
    case 4
    then have "c = CHR 0x0C"
      by (simp add: char_eq_code [of c] k_def dquote_def backslash_def)
    then show ?thesis
      using assms
      by (simp add: escapeChar_def dquote_def backslash_def unescape_def consChar_def)
  next
    case 5
    then have "c = CHR 0x0A"
      by (simp add: char_eq_code [of c] k_def dquote_def backslash_def)
    then show ?thesis
      using assms
      by (simp add: escapeChar_def dquote_def backslash_def unescape_def consChar_def)
  next
    case 6
    then have "c = CHR 0x0D"
      by (simp add: char_eq_code [of c] k_def dquote_def backslash_def)
    then show ?thesis
      using assms
      by (simp add: escapeChar_def dquote_def backslash_def unescape_def consChar_def)
  next
    case 7
    then have "c = CHR 0x09"
      by (simp add: char_eq_code [of c] k_def dquote_def backslash_def)
    then show ?thesis
      using assms
      by (simp add: escapeChar_def dquote_def backslash_def unescape_def consChar_def)
  next
    case 8
    then have ne: "c \<noteq> dquote" "c \<noteq> backslash" "c \<noteq> CHR 0x08" "c \<noteq> CHR 0x0C" "c \<noteq> CHR 0x0A"
      "c \<noteq> CHR 0x0D" "c \<noteq> CHR 0x09" and lt: "(of_char c :: nat) < 32"
      by (auto simp: char_eq_code [of c] k_def dquote_def backslash_def)
    have e: "escapeChar c = [backslash, CHR ''u'', CHR ''0'', CHR ''0'',
              hexDigit ((of_char c :: nat) div 16), hexDigit ((of_char c :: nat) mod 16)]"
      using ne lt by (simp add: escapeChar_def)
    show ?thesis
      unfolding e using assms unescapeU_control [OF lt]
      by (simp add: dquote_def backslash_def consChar_def)
  next
    case 9
    then have ne: "c \<noteq> dquote" "c \<noteq> backslash" "c \<noteq> CHR 0x08" "c \<noteq> CHR 0x0C" "c \<noteq> CHR 0x0A"
      "c \<noteq> CHR 0x0D" "c \<noteq> CHR 0x09" and ge: "\<not> (of_char c :: nat) < 32"
      by (auto simp: char_eq_code [of c] k_def dquote_def backslash_def)
    have e: "escapeChar c = [c]"
      using ne ge by (simp add: escapeChar_def)
    show ?thesis
      unfolding e using assms ne ge
      by (simp add: consChar_def)
  qed
qed

lemma parseString_escaped:
  "parseString (concat (map escapeChar s) @ dquote # rest) = Some (s, rest)"
proof (induction s)
  case Nil
  then show ?case by simp
next
  case (Cons c s)
  from parseString_escaped_char [OF Cons.IH, of c] show ?case
    by simp
qed

lemma parseString_quote:
  "parseString (tl (quoteJSONString s) @ rest) = Some (s, rest)"
  using parseString_escaped [of s rest] by (simp add: quoteJSONString_def)

lemma quoteJSONString_Cons:
  "quoteJSONString k = dquote # concat (map escapeChar k) @ [dquote]"
  by (simp add: quoteJSONString_def)

section \<open>JSON text read back: numbers\<close>


























lemma noDigitAhead_simps [simp]:
  "noDigitAhead []"
  "noDigitAhead (CHR ''.'' # s)"
  "noDigitAhead (CHR ''e'' # s)"
  by (simp_all add: noDigitAhead_def isDigit_def)







lemma decimalValue_scaled:
  "decimalValue (i * 10 ^ z, 0) = decimalValue (i, int z)"
  by (simp add: decimalValue_def)









section \<open>JSON text read back: values\<close>


lemma skipWs_Nil [simp]: "skipWs [] = []"
  by (simp add: skipWs_def)




lemma delimited_simps [simp]:
  "delimited []"
  "delimited (CHR '','' # s)"
  "delimited (CHR '']'' # s)"
  "delimited (CHR ''}'' # s)"
  by (simp_all add: delimited_def)

lemma delimited_elemsText [simp]: "delimited (elemsText xs @ rest)"
  by (cases xs) (simp_all add: elemsText_def)

lemma delimited_membersText [simp]: "delimited (membersText ms @ rest)"
  by (cases ms) (simp_all add: membersText_def)




lemma isWhitespace_simps [simp]:
  "\<not> isWhitespace dquote" "\<not> isWhitespace (CHR ''['')" "\<not> isWhitespace (CHR ''{'')"
  "\<not> isWhitespace (CHR '':'')" "\<not> isWhitespace (CHR ''n'')" "\<not> isWhitespace (CHR ''t'')"
  "\<not> isWhitespace (CHR ''f'')" "\<not> isWhitespace (CHR ''-'')"
  by (simp_all add: isWhitespace_def dquote_def)

lemma isDigit_not_whitespace: "isDigit c \<Longrightarrow> \<not> isWhitespace c"
  by (auto simp: isDigit_def isWhitespace_def)













section \<open>Entries written and read back\<close>



lemma deserializeEntry_fields:
  assumes "deserializeEntry r = Inr entry"
  shows "id' entry = id' r" "status entry = status r" "attemptCount entry = attemptCount r"
    "createdAt entry = createdAt r" "lastAttemptAt entry = lastAttemptAt r"
    "error entry = error r" "idempotencyKey entry = idempotencyKey r"
  using assms
  by (auto simp: deserializeEntry_def split: sum.splits)

lemma deserializeEntry_status_error:
  assumes "deserializeEntry r = Inr entry"
  shows "deserializeEntry (r\<lparr>status := st, error := er\<rparr>) = Inr (entry\<lparr>status := st, error := er\<rparr>)"
  using assms
  by (auto simp: deserializeEntry_def split: sum.splits)

lemma get_Some_iff:
  "get k s = Inr (Some entry) \<longleftrightarrow>
     (\<exists>r. objectStore_get k s = Some r \<and> deserializeEntry r = Inr entry)"
  by (auto simp: get_def split: option.splits sum.splits)





section \<open>Calls of the storage adapter\<close>

lemma store_emit [simp]: "store (emit ev w) = store w"
  by (simp add: emit_def)

lemma maxEntries_emit [simp]: "maxEntries (emit ev w) = maxEntries w"
  by (simp add: emit_def)

lemma journal_emit [simp]: "journal (emit ev w) = journal w @ [ev]"
  by (simp add: emit_def)

lemma store_hook [simp]: "store (hook name k w) = store w"
  by (simp add: hook_def)

lemma store_backoffWait [simp]: "store (backoffWait strategy entry w) = store w"
  by (simp add: backoffWait_def split: option.splits)

lemma storage_get_eq:
  "storage_get k w = (get k (store w), emit (EvStorage (CallGet k)) w)"
  by (simp add: storage_get_def emit_def Let_def)

lemma storage_update_existing:
  assumes "objectStore_get k (store w) = Some r"
  shows "storage_update k patch w =
           (Inr (), (emit (EvStorage (CallUpdate k patch)) w)
                      \<lparr>store := objectStore_put (mergePatch patch r) (store w)\<rparr>)"
  using assms by (simp add: storage_update_def update_def Let_def)

lemma storage_update_missing:
  assumes "objectStore_get k (store w) = None"
  shows "storage_update k patch w =
           (Inl (EntryNotFoundError k), emit (EvStorage (CallUpdate k patch)) w)"
  using assms by (simp add: storage_update_def update_def Let_def)

lemma markAsFailed_eq:
  "markAsFailed entry err c w = storage_update (id' entry) (failedPatch (errorMessage err) c) w"
  by (simp add: markAsFailed_def failedPatch_def)

lemma get_exhausted: "get ''test-1'' (store exhaustedWorld) = Inr (Some exhaustedEntry)"
  by code_simp

lemma get_pending: "get ''test-1'' (store pendingWorld) = Inr (Some (createEntry ''test-1'' 1000))"
  by code_simp

lemma get_missing: "get ''test-2'' (store exhaustedWorld) = Inr None"
  by code_simp

section \<open>Manual retry\<close>

lemma retry_cases:
  assumes "\<not> isDestroyed ledger"
  shows "retry k ledger w =
     (case get k (store w) of
        Inl e \<Rightarrow> (Inl e, emit (EvStorage (CallGet k)) w)
      | Inr None \<Rightarrow> (Inl (Error (''Entry not found: '' @ k)), emit (EvStorage (CallGet k)) w)
      | Inr (Some entry) \<Rightarrow>
          if status entry \<noteq> Failed
          then (Inl (Error (''Entry is not in failed state: '' @ k)), emit (EvStorage (CallGet k)) w)
          else storage_update k rearmPatch (emit (EvStorage (CallGet k)) w))"
  using assms
  by (simp add: retry_def storage_get_eq split: sum.splits option.splits)

lemma retry_failed:
  assumes nd: "\<not> isDestroyed ledger"
    and g: "get k (store w) = Inr (Some entry)"
    and f: "status entry = Failed"
  shows "\<exists>r. objectStore_get k (store w) = Some r \<and> deserializeEntry r = Inr entry
           \<and> retry k ledger w =
               (Inr (), (emit (EvStorage (CallUpdate k rearmPatch)) (emit (EvStorage (CallGet k)) w))
                  \<lparr>store := objectStore_put (r\<lparr>status := Pending, error := None\<rparr>) (store w)\<rparr>)"
proof -
  from g obtain r where r: "objectStore_get k (store w) = Some r" and d: "deserializeEntry r = Inr entry"
    unfolding get_Some_iff by blast
  have "objectStore_get k (store (emit (EvStorage (CallGet k)) w)) = Some r"
    using r by simp
  from storage_update_existing [OF this, of rearmPatch]
  have "retry k ledger w =
          (Inr (), (emit (EvStorage (CallUpdate k rearmPatch)) (emit (EvStorage (CallGet k)) w))
             \<lparr>store := objectStore_put (r\<lparr>status := Pending, error := None\<rparr>) (store w)\<rparr>)"
    using g f by (simp add: retry_cases [OF nd] mergePatch_rearm)
  with r d show ?thesis by blast
qed

text \<open>
  Claim C6. On a ledger that was not destroyed, \<open>retry k\<close> succeeds exactly when
  \<^verbatim>\<open>storage.get\<close> returns an entry for \<open>k\<close> whose status is \<open>Failed\<close>; the entry is
  then stored with status \<open>Pending\<close> and without its error, every other field as it was.
  When there is no entry the call throws \<^verbatim>\<open>Entry not found\<close>, when the status is
  \<open>Pending\<close>, \<open>Processing\<close> or \<open>Completed\<close> it throws
  \<^verbatim>\<open>Entry is not in failed state\<close>, and whenever it throws the object store is
  unchanged.
\<close>

theorem retry_requires_failed:
  assumes "\<not> isDestroyed ledger"
  shows "((\<exists>u. fst (retry k ledger w) = Inr u)
            \<longleftrightarrow> (\<exists>entry. get k (store w) = Inr (Some entry) \<and> status entry = Failed))
         \<and> (\<forall>entry. get k (store w) = Inr (Some entry) \<and> status entry = Failed \<longrightarrow>
               get k (store (snd (retry k ledger w)))
                 = Inr (Some (entry\<lparr>status := Pending, error := None\<rparr>)))
         \<and> (get k (store w) = Inr None \<longrightarrow>
               fst (retry k ledger w) = Inl (Error (''Entry not found: '' @ k)))
         \<and> (\<forall>entry. get k (store w) = Inr (Some entry) \<and> status entry \<in> {Pending, Processing, Completed}
               \<longrightarrow> fst (retry k ledger w) = Inl (Error (''Entry is not in failed state: '' @ k)))
         \<and> (\<forall>e. fst (retry k ledger w) = Inl e \<longrightarrow> store (snd (retry k ledger w)) = store w)"
proof -
  note rc = retry_cases [OF assms, of k w]
  have ok: "fst (retry k ledger w) = Inr ()
            \<and> get k (store (snd (retry k ledger w))) = Inr (Some (entry\<lparr>status := Pending, error := None\<rparr>))"
    if "get k (store w) = Inr (Some entry)" and "status entry = Failed" for entry
  proof -
    from retry_failed [OF assms that] obtain r where
      r: "objectStore_get k (store w) = Some r" and d: "deserializeEntry r = Inr entry"
      and eq: "retry k ledger w =
               (Inr (), (emit (EvStorage (CallUpdate k rearmPatch)) (emit (EvStorage (CallGet k)) w))
                  \<lparr>store := objectStore_put (r\<lparr>status := Pending, error := None\<rparr>) (store w)\<rparr>)"
      by blast
    from objectStore_get_SomeD [OF r] have idr: "id' r = k" by simp
    have "objectStore_get k (objectStore_put (r\<lparr>status := Pending, error := None\<rparr>) (store w))
          = Some (r\<lparr>status := Pending, error := None\<rparr>)"
      using idr by (simp add: objectStore_get_put)
    then have "get k (objectStore_put (r\<lparr>status := Pending, error := None\<rparr>) (store w))
               = Inr (Some (entry\<lparr>status := Pending, error := None\<rparr>))"
      using deserializeEntry_status_error [OF d, where st = Pending and er = None] by (simp add: get_def)
    then show ?thesis
      by (simp add: eq)
  qed
  have bad: "fst (retry k ledger w) = Inl (Error (''Entry is not in failed state: '' @ k))
             \<and> store (snd (retry k ledger w)) = store w"
    if "get k (store w) = Inr (Some entry)" and "status entry \<noteq> Failed" for entry
    using that by (simp add: rc)
  have none: "fst (retry k ledger w) = Inl (Error (''Entry not found: '' @ k))
             \<and> store (snd (retry k ledger w)) = store w"
    if "get k (store w) = Inr None"
    using that by (simp add: rc)
  have thrown: "fst (retry k ledger w) = Inl e \<and> store (snd (retry k ledger w)) = store w"
    if "get k (store w) = Inl e" for e
    using that by (simp add: rc)
  show ?thesis
  proof (cases "get k (store w)")
    case (Inl e)
    with thrown [OF Inl] show ?thesis by simp
  next
    case (Inr x)
    show ?thesis
    proof (cases x)
      case None
      with Inr none show ?thesis by simp
    next
      case (Some entry)
      show ?thesis
      proof (cases "status entry = Failed")
        case True
        with Inr Some ok [of entry] show ?thesis by simp
      next
        case False
        with Inr Some bad [of entry] show ?thesis by auto
      qed
    qed
  qed
qed

theorem retry_requires_failed_witness:
  "\<not> isDestroyed exampleLedger
   \<and> (\<exists>u. fst (retry ''test-1'' exampleLedger exhaustedWorld) = Inr u)
   \<and> get ''test-1'' (store (snd (retry ''test-1'' exampleLedger exhaustedWorld)))
       = Inr (Some (exhaustedEntry\<lparr>status := Pending, error := None\<rparr>))
   \<and> fst (retry ''test-2'' exampleLedger exhaustedWorld) = Inl (Error ''Entry not found: test-2'')
   \<and> store (snd (retry ''test-2'' exampleLedger exhaustedWorld)) = store exhaustedWorld
   \<and> fst (retry ''test-1'' exampleLedger pendingWorld)
       = Inl (Error ''Entry is not in failed state: test-1'')
   \<and> store (snd (retry ''test-1'' exampleLedger pendingWorld)) = store pendingWorld"
proof -
  have nd: "\<not> isDestroyed exampleLedger"
    by (simp add: exampleLedger_def)
  have f: "status exhaustedEntry = Failed"
    by (simp add: exhaustedEntry_def)
  have p: "status (createEntry ''test-1'' 1000) = Pending"
    by (simp add: createEntry_def)
  show ?thesis
    using nd f p get_exhausted get_pending get_missing
      retry_requires_failed [OF nd, of "''test-1''" exhaustedWorld]
      retry_requires_failed [OF nd, of "''test-2''" exhaustedWorld]
      retry_requires_failed [OF nd, of "''test-1''" pendingWorld]
    by simp
qed

section \<open>One attempt of the engine\<close>

lemma started_get:
  assumes "objectStore_get (id' entry) (store w) = Some r"
  shows "objectStore_get (id' entry) (store (started ev entry r w))
           = Some (mergePatch (processingPatch entry (attemptTime ev w)) r)"
proof -
  from objectStore_get_SomeD [OF assms] have "id' r = id' entry" by simp
  then show ?thesis
    by (simp add: started_def objectStore_get_put)
qed

lemma processEntry_started:
  assumes g: "objectStore_get (id' entry) (store w) = Some r"
  shows "processEntry ev strategy entry w =
     (case attemptOutcome ev w of
        Inl thrown \<Rightarrow> processEntry_catch strategy entry thrown (started ev entry r w)
      | Inr response \<Rightarrow>
          (let st = http_status response; w3 = started ev entry r w in
           if isClientError st then
             (let err = Error (''HTTP '' @ natToString st @ '': Client error'') in
              case markAsFailed entry err (Some (natToString st)) w3 of
                (Inl e, w4) \<Rightarrow> processEntry_catch strategy entry e w4
              | (Inr u', w4) \<Rightarrow>
                  processEntry_catch strategy entry err (hook ''onReplayFailure'' (id' entry) w4))
           else if isRetryableStatusCode st then
             (if canRetryEntry strategy entry then
                (case storage_update (id' entry) pendingPatch w3 of
                   (Inl e, w4) \<Rightarrow> processEntry_catch strategy entry e w4
                 | (Inr u', w4) \<Rightarrow>
                     processEntry_catch strategy entry
                       (Error (''HTTP '' @ natToString st @ '': Server error, will retry''))
                       (backoffWait strategy entry w4))
              else
                (let err = Error (''HTTP '' @ natToString st @ '': Server error, max retries exceeded'') in
                 case markAsFailed entry err (Some (natToString st)) w3 of
                   (Inl e, w4) \<Rightarrow> processEntry_catch strategy entry e w4
                 | (Inr u', w4) \<Rightarrow>
                     processEntry_catch strategy entry err (hook ''onReplayFailure'' (id' entry) w4)))
           else (Inr (), hook ''onReplaySuccess'' (id' entry) w3)))"
proof -
  define w1 where "w1 = (emit (EvStorage (CallUpdate (id' entry) (processingPatch entry (attemptTime ev w)))) w)
                \<lparr>store := objectStore_put (mergePatch (processingPatch entry (attemptTime ev w)) r) (store w)\<rparr>"
  have u: "storage_update (id' entry)
             \<lparr> patch_status = Some Processing,
               patch_attemptCount = Some (attemptCount entry + 1),
               patch_lastAttemptAt = Some (env_now ev (length (journal w))),
               patch_error = None \<rparr> w = (Inr (), w1)"
    using storage_update_existing [OF g, of "processingPatch entry (attemptTime ev w)"]
    by (simp add: w1_def processingPatch_def attemptTime_def)
  have f: "fetch ev (url (request entry)) (hook ''onReplayStart'' (id' entry) w1)
           = (attemptOutcome ev w, started ev entry r w)"
    by (simp add: fetch_def hook_def attemptOutcome_def started_def w1_def emit_def)
  show ?thesis
    unfolding processEntry_def u
    by (simp only: prod.case sum.case Let_def f)
qed

lemma isNetworkError_Error [simp]: "isNetworkError (Error m) = False"
  by simp

lemma processEntry_catch_other:
  "\<not> isNetworkError err \<Longrightarrow> processEntry_catch strategy entry err w = (Inl err, w)"
  by (simp add: processEntry_catch_def)

lemma update_after_start:
  assumes g: "objectStore_get (id' entry) (store w) = Some r"
  shows "\<exists>w4. storage_update (id' entry) patch (started ev entry r w) = (Inr (), w4)
           \<and> objectStore_get (id' entry) (store w4)
               = Some (mergePatch patch (mergePatch (processingPatch entry (attemptTime ev w)) r))"
proof -
  define r1 where "r1 = mergePatch (processingPatch entry (attemptTime ev w)) r"
  have g1: "objectStore_get (id' entry) (store (started ev entry r w)) = Some r1"
    unfolding r1_def by (rule started_get [OF g])
  from objectStore_get_SomeD [OF g] have "id' (mergePatch patch r1) = id' entry"
    by (simp add: r1_def)
  then have "objectStore_get (id' entry) (objectStore_put (mergePatch patch r1) (store (started ev entry r w)))
        = Some (mergePatch patch r1)"
    by (simp add: objectStore_get_put)
  then show ?thesis
    unfolding storage_update_existing [OF g1, of patch] r1_def by simp
qed

lemma processEntry_markFailed:
  assumes g: "objectStore_get (id' entry) (store w) = Some r"
  shows "\<exists>w5. (case markAsFailed entry (Error msg) c (started ev entry r w) of
                 (Inl e, w4) \<Rightarrow> processEntry_catch strategy entry e w4
               | (Inr u, w4) \<Rightarrow>
                   processEntry_catch strategy entry (Error msg)
                     (hook ''onReplayFailure'' (id' entry) w4)) = (Inl (Error msg), w5)
          \<and> objectStore_get (id' entry) (store w5)
              = Some (r\<lparr>status := Failed, attemptCount := attemptCount entry + 1,
                        lastAttemptAt := Some (attemptTime ev w),
                        error := Some \<lparr> message = msg, code = c \<rparr>\<rparr>)"
proof -
  from update_after_start [OF g, of "failedPatch msg c" ev] obtain w4 where
    u: "storage_update (id' entry) (failedPatch msg c) (started ev entry r w) = (Inr (), w4)"
    and s: "objectStore_get (id' entry) (store w4)
            = Some (mergePatch (failedPatch msg c) (mergePatch (processingPatch entry (attemptTime ev w)) r))"
    by blast
  have m: "markAsFailed entry (Error msg) c (started ev entry r w) = (Inr (), w4)"
    using u by (simp add: markAsFailed_eq)
  show ?thesis
    using s by (simp add: m processEntry_catch_other mergePatch_failed mergePatch_processing)
qed

lemma processEntry_rearm:
  assumes g: "objectStore_get (id' entry) (store w) = Some r"
  shows "\<exists>w5. (case storage_update (id' entry) pendingPatch (started ev entry r w) of
                 (Inl e, w4) \<Rightarrow> processEntry_catch strategy entry e w4
               | (Inr u, w4) \<Rightarrow>
                   processEntry_catch strategy entry (Error msg)
                     (backoffWait strategy entry w4)) = (Inl (Error msg), w5)
          \<and> objectStore_get (id' entry) (store w5)
              = Some (r\<lparr>status := Pending, attemptCount := attemptCount entry + 1,
                        lastAttemptAt := Some (attemptTime ev w)\<rparr>)"
proof -
  from update_after_start [OF g, of pendingPatch ev] obtain w4 where
    u: "storage_update (id' entry) pendingPatch (started ev entry r w) = (Inr (), w4)"
    and s: "objectStore_get (id' entry) (store w4)
            = Some (mergePatch pendingPatch (mergePatch (processingPatch entry (attemptTime ev w)) r))"
    by blast
  show ?thesis
    using s by (simp add: u processEntry_catch_other mergePatch_pending mergePatch_processing)
qed

lemma processEntry_on_response:
  assumes g: "objectStore_get (id' entry) (store w) = Some r"
    and o: "attemptOutcome ev w = Inr response"
  shows "(400 \<le> http_status response \<and> http_status response < 500 \<longrightarrow>
           fst (processEntry ev strategy entry w)
             = Inl (Error (''HTTP '' @ natToString (http_status response) @ '': Client error''))
           \<and> objectStore_get (id' entry) (store (snd (processEntry ev strategy entry w)))
             = Some (r\<lparr>status := Failed, attemptCount := attemptCount entry + 1,
                       lastAttemptAt := Some (attemptTime ev w),
                       error := Some \<lparr> message = ''HTTP '' @ natToString (http_status response)
                                                 @ '': Client error'',
                                       code = Some (natToString (http_status response)) \<rparr>\<rparr>))
       \<and> (500 \<le> http_status response \<and> http_status response < 600
            \<and> canRetryEntry strategy entry \<longrightarrow>
           fst (processEntry ev strategy entry w)
             = Inl (Error (''HTTP '' @ natToString (http_status response) @ '': Server error, will retry''))
           \<and> objectStore_get (id' entry) (store (snd (processEntry ev strategy entry w)))
             = Some (r\<lparr>status := Pending, attemptCount := attemptCount entry + 1,
                       lastAttemptAt := Some (attemptTime ev w)\<rparr>))
       \<and> (500 \<le> http_status response \<and> http_status response < 600
            \<and> \<not> canRetryEntry strategy entry \<longrightarrow>
           fst (processEntry ev strategy entry w)
             = Inl (Error (''HTTP '' @ natToString (http_status response)
                           @ '': Server error, max retries exceeded''))
           \<and> objectStore_get (id' entry) (store (snd (processEntry ev strategy entry w)))
             = Some (r\<lparr>status := Failed, attemptCount := attemptCount entry + 1,
                       lastAttemptAt := Some (attemptTime ev w),
                       error := Some \<lparr> message = ''HTTP '' @ natToString (http_status response)
                                                 @ '': Server error, max retries exceeded'',
                                       code = Some (natToString (http_status response)) \<rparr>\<rparr>))
       \<and> (canRetryEntry strategy entry
            \<longleftrightarrow> (case strategy of
                   Manual \<Rightarrow> False
                 | Fixed d maxAttempts \<Rightarrow> attemptCount entry + 1 < maxAttempts
                 | Exponential b m maxAttempts \<Rightarrow> attemptCount entry + 1 < maxAttempts))"
proof -
  define st where "st = http_status response"
  note pe = processEntry_started [OF g, of ev strategy, unfolded o sum.case Let_def, folded st_def]
  have client: "fst (processEntry ev strategy entry w) = Inl (Error (''HTTP '' @ natToString st @ '': Client error''))
      \<and> objectStore_get (id' entry) (store (snd (processEntry ev strategy entry w)))
          = Some (r\<lparr>status := Failed, attemptCount := attemptCount entry + 1,
                    lastAttemptAt := Some (attemptTime ev w),
                    error := Some \<lparr> message = ''HTTP '' @ natToString st @ '': Client error'',
                                    code = Some (natToString st) \<rparr>\<rparr>)"
    if "400 \<le> st" "st < 500"
  proof -
    from that have c: "isClientError st"
      by (simp add: isClientError_def)
    from processEntry_markFailed [OF g, where msg = "''HTTP '' @ natToString st @ '': Client error''"
        and c = "Some (natToString st)" and ev = ev and strategy = strategy]
    show ?thesis
      unfolding pe using c by auto
  qed
  have rearm: "fst (processEntry ev strategy entry w)
        = Inl (Error (''HTTP '' @ natToString st @ '': Server error, will retry''))
      \<and> objectStore_get (id' entry) (store (snd (processEntry ev strategy entry w)))
          = Some (r\<lparr>status := Pending, attemptCount := attemptCount entry + 1,
                    lastAttemptAt := Some (attemptTime ev w)\<rparr>)"
    if "500 \<le> st" "st < 600" "canRetryEntry strategy entry"
  proof -
    from that have c: "\<not> isClientError st" "isRetryableStatusCode st"
      by (simp_all add: isClientError_def isRetryableStatusCode_def)
    from processEntry_rearm [OF g, where ev = ev and strategy = strategy
        and msg = "''HTTP '' @ natToString st @ '': Server error, will retry''"]
    show ?thesis
      unfolding pe using c that(3) by auto
  qed
  have exhausted: "fst (processEntry ev strategy entry w)
        = Inl (Error (''HTTP '' @ natToString st @ '': Server error, max retries exceeded''))
      \<and> objectStore_get (id' entry) (store (snd (processEntry ev strategy entry w)))
          = Some (r\<lparr>status := Failed, attemptCount := attemptCount entry + 1,
                    lastAttemptAt := Some (attemptTime ev w),
                    error := Some \<lparr> message = ''HTTP '' @ natToString st
                                              @ '': Server error, max retries exceeded'',
                                    code = Some (natToString st) \<rparr>\<rparr>)"
    if "500 \<le> st" "st < 600" "\<not> canRetryEntry strategy entry"
  proof -
    from that have c: "\<not> isClientError st" "isRetryableStatusCode st"
      by (simp_all add: isClientError_def isRetryableStatusCode_def)
    from processEntry_markFailed [OF g,
        where msg = "''HTTP '' @ natToString st @ '': Server error, max retries exceeded''"
        and c = "Some (natToString st)" and ev = ev and strategy = strategy]
    show ?thesis
      unfolding pe using c that(3) by auto
  qed
  have budget: "canRetryEntry strategy entry
            \<longleftrightarrow> (case strategy of
                   Manual \<Rightarrow> False
                 | Fixed d maxAttempts \<Rightarrow> attemptCount entry + 1 < maxAttempts
                 | Exponential b m maxAttempts \<Rightarrow> attemptCount entry + 1 < maxAttempts)"
    by (simp add: canRetryEntry_def)
  show ?thesis
    using client rearm exhausted budget unfolding st_def by blast
qed

text \<open>
  Claim C1. Let \<open>processEntry\<close> run on an entry whose record \<open>r\<close> is in the store, and
  let the attempt's \<^verbatim>\<open>fetch\<close> answer with a response. A status in 400..499 leaves the
  record \<open>Failed\<close> with the error recorded, whatever the retry budget. A status in
  500..599 leaves it \<open>Pending\<close> when \<open>canRetryEntry\<close> holds, that is when the strategy
  is not manual and the attempt count after this attempt is below \<open>maxAttempts\<close>, and
  \<open>Failed\<close> with the error recorded otherwise. In each case the attempt count is one
  more than the entry's, the time of the attempt is recorded and the call throws.
\<close>

theorem processEntry_transitions:
  assumes g: "objectStore_get (id' entry) (store w) = Some r"
    and o: "attemptOutcome ev w = Inr response"
  shows "(400 \<le> http_status response \<and> http_status response < 500 \<longrightarrow>
           fst (processEntry ev strategy entry w)
             = Inl (Error (''HTTP '' @ natToString (http_status response) @ '': Client error''))
           \<and> objectStore_get (id' entry) (store (snd (processEntry ev strategy entry w)))
             = Some (r\<lparr>status := Failed, attemptCount := attemptCount entry + 1,
                       lastAttemptAt := Some (attemptTime ev w),
                       error := Some \<lparr> message = ''HTTP '' @ natToString (http_status response)
                                                 @ '': Client error'',
                                       code = Some (natToString (http_status response)) \<rparr>\<rparr>))
       \<and> (500 \<le> http_status response \<and> http_status response < 600
            \<and> canRetryEntry strategy entry \<longrightarrow>
           fst (processEntry ev strategy entry w)
             = Inl (Error (''HTTP '' @ natToString (http_status response) @ '': Server error, will retry''))
           \<and> objectStore_get (id' entry) (store (snd (processEntry ev strategy entry w)))
             = Some (r\<lparr>status := Pending, attemptCount := attemptCount entry + 1,
                       lastAttemptAt := Some (attemptTime ev w)\<rparr>))
       \<and> (500 \<le> http_status response \<and> http_status response < 600
            \<and> \<not> canRetryEntry strategy entry \<longrightarrow>
           fst (processEntry ev strategy entry w)
             = Inl (Error (''HTTP '' @ natToString (http_status response)
                           @ '': Server error, max retries exceeded''))
           \<and> objectStore_get (id' entry) (store (snd (processEntry ev strategy entry w)))
             = Some (r\<lparr>status := Failed, attemptCount := attemptCount entry + 1,
                       lastAttemptAt := Some (attemptTime ev w),
                       error := Some \<lparr> message = ''HTTP '' @ natToString (http_status response)
                                                 @ '': Server error, max retries exceeded'',
                                       code = Some (natToString (http_status response)) \<rparr>\<rparr>))
       \<and> (canRetryEntry strategy entry
            \<longleftrightarrow> (case strategy of
                   Manual \<Rightarrow> False
                 | Fixed d maxAttempts \<Rightarrow> attemptCount entry + 1 < maxAttempts
                 | Exponential b m maxAttempts \<Rightarrow> attemptCount entry + 1 < maxAttempts))"
  by (rule processEntry_on_response [OF g o])

theorem processEntry_transitions_witness:
  "objectStore_get (id' (createEntry ''test-1'' 1000)) (store pendingWorld)
     = Some (storedEntry (createEntry ''test-1'' 1000))
   \<and> attemptOutcome (respondWith 404) pendingWorld = Inr \<lparr> http_status = 404 \<rparr>
   \<and> canRetryEntry DEFAULT_RETRY_STRATEGY (createEntry ''test-1'' 1000)
   \<and> map_option status (objectStore_get ''test-1'' (store (snd
         (processEntry (respondWith 404) DEFAULT_RETRY_STRATEGY (createEntry ''test-1'' 1000)
            pendingWorld)))) = Some Failed
   \<and> map_option status (objectStore_get ''test-1'' (store (snd
         (processEntry (respondWith 503) DEFAULT_RETRY_STRATEGY (createEntry ''test-1'' 1000)
            pendingWorld)))) = Some Pending
   \<and> map_option status (objectStore_get ''test-1'' (store (snd
         (processEntry (respondWith 503) (Fixed 1000 1) (createEntry ''test-1'' 1000)
            pendingWorld)))) = Some Failed
   \<and> map_option status (objectStore_get ''test-1'' (store (snd
         (processEntry (respondWith 503) Manual (createEntry ''test-1'' 1000)
            pendingWorld)))) = Some Failed"
proof -
  have g: "objectStore_get (id' (createEntry ''test-1'' 1000)) (store pendingWorld)
           = Some (storedEntry (createEntry ''test-1'' 1000))"
    by (simp add: pendingWorld_def objectStore_get_def createEntry_def)
  have o: "attemptOutcome (respondWith st) pendingWorld = Inr \<lparr> http_status = st \<rparr>" for st
    by (simp add: attemptOutcome_def respondWith_def)
  have i: "id' (createEntry ''test-1'' 1000) = ''test-1''"
    by (simp add: createEntry_def)
  have c: "canRetryEntry DEFAULT_RETRY_STRATEGY (createEntry ''test-1'' 1000)"
    "\<not> canRetryEntry (Fixed 1000 1) (createEntry ''test-1'' 1000)"
    "\<not> canRetryEntry Manual (createEntry ''test-1'' 1000)"
    by (simp_all add: canRetryEntry_def DEFAULT_RETRY_STRATEGY_def createEntry_def)
  show ?thesis
    using g o [of 404] c
      processEntry_transitions [OF g o [of 404], of DEFAULT_RETRY_STRATEGY]
      processEntry_transitions [OF g o [of 503], of DEFAULT_RETRY_STRATEGY]
      processEntry_transitions [OF g o [of 503], of "Fixed 1000 1"]
      processEntry_transitions [OF g o [of 503], of Manual]
    by (simp add: i)
qed

section \<open>Manual retry and the retry budget\<close>






section \<open>Startup recovery\<close>

lemma put_pending_distinct:
  assumes dist: "distinct (map id' s)" and g: "objectStore_get k s = Some r"
  shows "objectStore_put (r\<lparr>status := Pending\<rparr>) s
           = map (\<lambda>x. if id' x = k then x\<lparr>status := Pending\<rparr> else x) s"
proof -
  from objectStore_get_SomeD [OF g] have idr: "id' r = k" and rin: "r \<in> set s"
    by simp_all
  from dist have inj: "inj_on id' (set s)"
    by (simp add: distinct_map)
  have same: "x = r" if "x \<in> set s" and "id' x = k" for x
    using inj that rin idr by (simp add: inj_on_def)
  have "objectStore_put (r\<lparr>status := Pending\<rparr>) s
          = map (\<lambda>x. if id' x = k then r\<lparr>status := Pending\<rparr> else x) s"
    using g idr by (simp add: objectStore_put_def)
  also have "\<dots> = map (\<lambda>x. if id' x = k then x\<lparr>status := Pending\<rparr> else x) s"
    by (rule map_cong [OF refl]) (auto dest: same)
  finally show ?thesis .
qed

lemma id'_markPending [simp]: "id' (markPending K x) = id' x"
  by (simp add: markPending_def)

lemma markPending_insert:
  "markPending K (markPending {k} x) = markPending (insert k K) x"
  by (simp add: markPending_def)

lemma recoverLoop_marks:
  assumes "distinct (map id' (store w))"
    and "\<forall>e \<in> set entries. id' e \<in> id' ` set (store w)"
  shows "fst (recoverLoop entries w) = Inr ()
         \<and> store (snd (recoverLoop entries w))
             = map (markPending (id' ` {e \<in> set entries. status e = Processing})) (store w)"
  using assms
proof (induction entries arbitrary: w)
  case Nil
  then show ?case
    by (simp add: markPending_def)
next
  case (Cons entry rest)
  show ?case
  proof (cases "status entry = Processing")
    case False
    have "{e \<in> set (entry # rest). status e = Processing} = {e \<in> set rest. status e = Processing}"
      using False by auto
    with Cons False show ?thesis
      by simp
  next
    case True
    from Cons.prems(2) obtain r where r: "objectStore_get (id' entry) (store w) = Some r"
      using objectStore_get_None_iff [of "id' entry" "store w"] by fastforce
    define w1 where "w1 = (emit (EvStorage (CallUpdate (id' entry) pendingPatch)) w)
                      \<lparr>store := objectStore_put (mergePatch pendingPatch r) (store w)\<rparr>"
    have u: "storage_update (id' entry) pendingPatch w = (Inr (), w1)"
      unfolding w1_def by (rule storage_update_existing [OF r])
    have s1: "store w1 = map (markPending {id' entry}) (store w)"
      using put_pending_distinct [OF Cons.prems(1) r]
      by (simp add: w1_def mergePatch_pending markPending_def)
    have ids: "map id' (store w1) = map id' (store w)"
      by (simp add: s1 comp_def)
    have d1: "distinct (map id' (store w1))"
      using Cons.prems(1) by (simp only: ids)
    have e1: "\<forall>e \<in> set rest. id' e \<in> id' ` set (store w1)"
    proof -
      have "id' ` set (store w1) = set (map id' (store w1))"
        by simp
      also have "\<dots> = id' ` set (store w)"
        by (simp only: ids set_map)
      finally show ?thesis
        using Cons.prems(2) by simp
    qed
    have K: "id' ` {e \<in> set (entry # rest). status e = Processing}
             = insert (id' entry) (id' ` {e \<in> set rest. status e = Processing})"
      using True by auto
    have step: "recoverLoop (entry # rest) w = recoverLoop rest w1"
      using True u by simp
    from Cons.IH [OF d1 e1] have
      ok: "fst (recoverLoop rest w1) = Inr ()" and
      st: "store (snd (recoverLoop rest w1))
             = map (markPending (id' ` {e \<in> set rest. status e = Processing})) (store w1)"
      by simp_all
    have "store (snd (recoverLoop rest w1))
            = map (markPending (id' ` {e \<in> set (entry # rest). status e = Processing})) (store w)"
      unfolding st s1 K by (simp add: markPending_insert comp_def)
    with ok show ?thesis
      unfolding step by simp
  qed
qed

lemma mapThrowing_all2:
  "mapThrowing f xs = Inr ys \<Longrightarrow> list_all2 (\<lambda>x y. f x = Inr y) xs ys"
  by (induction xs arbitrary: ys) (auto split: sum.splits)

lemma getAll_entries:
  assumes "getAll s = Inr entries"
  shows "(\<lambda>e. (id' e, status e)) ` set entries = (\<lambda>r. (id' r, status r)) ` set s"
proof -
  from assms have "list_all2 (\<lambda>r e. deserializeEntry r = Inr e) (index_createdAt s) entries"
    unfolding getAll_def by (rule mapThrowing_all2)
  then have "list_all2 (\<lambda>r e. (id' e, status e) = (id' r, status r)) (index_createdAt s) entries"
    by (rule list_all2_mono) (simp add: deserializeEntry_fields)
  then have "map (\<lambda>e. (id' e, status e)) entries = map (\<lambda>r. (id' r, status r)) (index_createdAt s)"
    by (induction rule: list_all2_induct) simp_all
  then have "set (map (\<lambda>e. (id' e, status e)) entries)
             = set (map (\<lambda>r. (id' r, status r)) (index_createdAt s))"
    by simp
  then show ?thesis
    by simp
qed

lemma recoverStaleEntries_eq:
  assumes dist: "distinct (map id' (store w))" and ga: "getAll (store w) = Inr entries"
  shows "fst (recoverStaleEntries w) = Inr ()"
    and "store (snd (recoverStaleEntries w))
           = map (\<lambda>r. if status r = Processing then r\<lparr>status := Pending\<rparr> else r) (store w)"
proof -
  define w1 where "w1 = emit (EvStorage CallGetAll) w"
  have sg: "storage_getAll w = (Inr entries, w1)"
    using ga by (simp add: storage_getAll_def w1_def Let_def)
  have rs: "recoverStaleEntries w = recoverLoop entries w1"
    by (simp add: recoverStaleEntries_def sg)
  have d1: "distinct (map id' (store w1))"
    using dist by (simp add: w1_def)
  from getAll_entries [OF ga] have pairs:
    "(\<lambda>e. (id' e, status e)) ` set entries = (\<lambda>r. (id' r, status r)) ` set (store w)" .
  have e1: "\<forall>e \<in> set entries. id' e \<in> id' ` set (store w1)"
  proof
    fix e assume "e \<in> set entries"
    then have "(id' e, status e) \<in> (\<lambda>r. (id' r, status r)) ` set (store w)"
      using pairs by blast
    then show "id' e \<in> id' ` set (store w1)"
      by (auto simp: w1_def)
  qed
  from dist have inj: "inj_on id' (set (store w))"
    by (simp add: distinct_map)
  have mark: "markPending (id' ` {e \<in> set entries. status e = Processing}) x
              = (if status x = Processing then x\<lparr>status := Pending\<rparr> else x)"
    if x: "x \<in> set (store w)" for x
  proof -
    have "id' x \<in> id' ` {e \<in> set entries. status e = Processing} \<longleftrightarrow> status x = Processing"
    proof
      assume "id' x \<in> id' ` {e \<in> set entries. status e = Processing}"
      then obtain e where e: "e \<in> set entries" "status e = Processing" "id' e = id' x"
        by auto
      then have "(id' e, status e) \<in> (\<lambda>r. (id' r, status r)) ` set (store w)"
        using pairs by blast
      then obtain r where r: "r \<in> set (store w)" "id' r = id' e" "status r = status e"
        by auto
      with inj x e have "r = x"
        by (simp add: inj_on_def)
      with r e show "status x = Processing"
        by simp
    next
      assume p: "status x = Processing"
      from x have "(id' x, status x) \<in> (\<lambda>e. (id' e, status e)) ` set entries"
        using pairs by blast
      then obtain e where "e \<in> set entries" "id' e = id' x" "status e = status x"
        by auto
      with p show "id' x \<in> id' ` {e \<in> set entries. status e = Processing}"
        by force
    qed
    then show ?thesis
      by (simp add: markPending_def)
  qed
  from recoverLoop_marks [OF d1 e1] have
    ok: "fst (recoverLoop entries w1) = Inr ()" and
    st: "store (snd (recoverLoop entries w1))
           = map (markPending (id' ` {e \<in> set entries. status e = Processing})) (store w1)"
    by simp_all
  show "fst (recoverStaleEntries w) = Inr ()"
    by (simp add: rs ok)
  have "store (snd (recoverLoop entries w1))
          = map (\<lambda>r. if status r = Processing then r\<lparr>status := Pending\<rparr> else r) (store w)"
    unfolding st by (rule map_cong) (simp_all add: w1_def mark)
  then show "store (snd (recoverStaleEntries w))
           = map (\<lambda>r. if status r = Processing then r\<lparr>status := Pending\<rparr> else r) (store w)"
    by (simp add: rs)
qed

lemma process_starts_with_recovery:
  assumes "\<not> isProcessing eng" and "fst (recoverStaleEntries w) = Inr ()"
  shows "process fuel ev strategy opts (eng, w) =
           (case drainLoop fuel ev strategy opts
                   (eng\<lparr>isProcessing := True, lastError := None, abortController := Some False\<rparr>,
                    snd (recoverStaleEntries w)) of
              None \<Rightarrow> None
            | Some (res, eng2, w2) \<Rightarrow> Some (res, process_finally eng2, w2))"
proof -
  obtain w1 where r: "recoverStaleEntries w = (Inr (), w1)"
    using assms(2) by (cases "recoverStaleEntries w") auto
  show ?thesis
    using assms(1) by (simp add: process_def process_enter_def r)
qed

text \<open>
  Claim C2. Let the store hold one record per id, each of them readable by
  \<^verbatim>\<open>getAll\<close>. Then \<open>recoverStaleEntries\<close> succeeds, every record whose status was
  \<open>Processing\<close> is \<open>Pending\<close> afterwards, every other record is unchanged, and no record
  has status \<open>Processing\<close>. It is the first thing \<open>process\<close> does once the guard is
  passed: the drain loop starts from the recovered store.
\<close>

theorem recoverStaleEntries_resets_processing:
  assumes dist: "distinct (map id' (store w))" and ga: "getAll (store w) = Inr entries"
  shows "fst (recoverStaleEntries w) = Inr ()
         \<and> store (snd (recoverStaleEntries w))
             = map (\<lambda>r. if status r = Processing then r\<lparr>status := Pending\<rparr> else r) (store w)
         \<and> (\<forall>r \<in> set (store (snd (recoverStaleEntries w))). status r \<noteq> Processing)
         \<and> (\<not> isProcessing eng \<longrightarrow>
               process fuel ev strategy opts (eng, w) =
                 (case drainLoop fuel ev strategy opts
                         (eng\<lparr>isProcessing := True, lastError := None, abortController := Some False\<rparr>,
                          snd (recoverStaleEntries w)) of
                    None \<Rightarrow> None
                  | Some (res, eng2, w2) \<Rightarrow> Some (res, process_finally eng2, w2)))"
proof -
  note r = recoverStaleEntries_eq [OF dist ga]
  have none: "\<forall>r \<in> set (store (snd (recoverStaleEntries w))). status r \<noteq> Processing"
    unfolding r(2) by auto
  have first: "process fuel ev strategy opts (eng, w) =
                 (case drainLoop fuel ev strategy opts
                         (eng\<lparr>isProcessing := True, lastError := None, abortController := Some False\<rparr>,
                          snd (recoverStaleEntries w)) of
                    None \<Rightarrow> None
                  | Some (res, eng2, w2) \<Rightarrow> Some (res, process_finally eng2, w2))"
    if "\<not> isProcessing eng"
    using that r(1) by (rule process_starts_with_recovery)
  show ?thesis
    by (intro conjI impI r none first)
qed

lemma getAll_crashed:
  "getAll (store crashedWorld) =
     Inr [(createEntry ''test-1'' 1000)\<lparr>status := Processing, attemptCount := 1\<rparr>,
          createEntry ''test-2'' 2000,
          (createEntry ''test-1'' 1000)
            \<lparr>id' := ''test-3'', status := Failed, createdAt := 3000,
              error := Some \<lparr> message = ''Test failure'', code = None \<rparr>\<rparr>]"
  by code_simp

theorem recoverStaleEntries_resets_processing_witness:
  "distinct (map id' (store crashedWorld))
   \<and> map status (store crashedWorld) = [Processing, Pending, Failed]
   \<and> fst (recoverStaleEntries crashedWorld) = Inr ()
   \<and> map status (store (snd (recoverStaleEntries crashedWorld))) = [Pending, Pending, Failed]
   \<and> map id' (store (snd (recoverStaleEntries crashedWorld))) = [''test-1'', ''test-2'', ''test-3'']"
proof -
  have d: "distinct (map id' (store crashedWorld))"
    by (simp add: crashedWorld_def createEntry_def failedEntry_def)
  have s: "map status (store crashedWorld) = [Processing, Pending, Failed]"
    "map id' (store crashedWorld) = [''test-1'', ''test-2'', ''test-3'']"
    by (simp_all add: crashedWorld_def createEntry_def failedEntry_def)
  from recoverStaleEntries_resets_processing [OF d getAll_crashed]
  have ok: "fst (recoverStaleEntries crashedWorld) = Inr ()"
    and st: "store (snd (recoverStaleEntries crashedWorld))
           = map (\<lambda>r. if status r = Processing then r\<lparr>status := Pending\<rparr> else r) (store crashedWorld)"
    by blast+
  have "map status (store (snd (recoverStaleEntries crashedWorld))) = [Pending, Pending, Failed]"
    and "map id' (store (snd (recoverStaleEntries crashedWorld))) = [''test-1'', ''test-2'', ''test-3'']"
    unfolding st by (simp_all add: crashedWorld_def createEntry_def failedEntry_def)
  with d s ok show ?thesis
    by blast
qed

section \<open>The single drain loop\<close>

lemma engineRun_single:
  assumes "engineRun ek"
  shows "snd ek = (if isProcessing (fst ek) then 1 else 0)"
  using assms
proof (induction rule: engineRun.induct)
  case run_new
  then show ?case by (simp add: newEngine_def)
next
  case (run_enter eng k eng1)
  then show ?case
    by (auto simp: process_enter_def split: if_splits)
next
  case (run_ignored eng k)
  then show ?case by simp
next
  case (run_lastError eng k e)
  then show ?case by simp
next
  case (run_finally eng k)
  then show ?case
    by (auto simp: process_finally_def split: if_splits)
next
  case (run_pause eng k)
  then show ?case by (simp add: pause_def)
next
  case (run_resume eng k)
  then show ?case by (simp add: resume_def)
qed

text \<open>
  Claim C8. A call of \<open>process\<close> made while \<^verbatim>\<open>isProcessing\<close> is set returns at once,
  whatever the bound on its loop, without an exception and with the engine and the world
  as they were: the store is the same and the journal has no new entry, so there was no
  recovery pass, no call of the storage adapter and no \<^verbatim>\<open>fetch\<close>. Under every
  interleaving of calls of \<^verbatim>\<open>process\<close>, \<^verbatim>\<open>pause\<close> and \<^verbatim>\<open>resume\<close> with a running
  loop there is at most one active drain loop, and \<^verbatim>\<open>isProcessing\<close> is set exactly
  while there is one.
\<close>

theorem process_while_processing:
  "(isProcessing eng \<longrightarrow> process fuel ev strategy opts (eng, w) = Some (Inr (), eng, w))
   \<and> (engineRun (eng', k) \<longrightarrow> k \<le> 1 \<and> (isProcessing eng' \<longleftrightarrow> k = 1))"
proof -
  have "process fuel ev strategy opts (eng, w) = Some (Inr (), eng, w)" if "isProcessing eng"
    using that by (simp add: process_def process_enter_def)
  moreover have "k \<le> 1 \<and> (isProcessing eng' \<longleftrightarrow> k = 1)" if "engineRun (eng', k)"
    using engineRun_single [OF that] by (simp split: if_splits)
  ultimately show ?thesis
    by blast
qed

theorem process_while_processing_witness:
  "isProcessing busyEngine
   \<and> engineRun (busyEngine, 1)
   \<and> process 0 (respondWith 200) DEFAULT_RETRY_STRATEGY \<lparr> concurrency = 1, stopOnError = True \<rparr>
        (busyEngine, crashedWorld) = Some (Inr (), busyEngine, crashedWorld)
   \<and> process 7 (respondWith 200) DEFAULT_RETRY_STRATEGY \<lparr> concurrency = 1, stopOnError = True \<rparr>
        (busyEngine, crashedWorld) = Some (Inr (), busyEngine, crashedWorld)"
proof -
  have b: "isProcessing busyEngine"
    by (simp add: busyEngine_def)
  have "process_enter newEngine = Some busyEngine"
    by (simp add: process_enter_def newEngine_def busyEngine_def)
  with run_new have r: "engineRun (busyEngine, Suc 0)"
    by (rule run_enter)
  show ?thesis
    using b r
      process_while_processing [of busyEngine 0 "respondWith 200" DEFAULT_RETRY_STRATEGY
        "\<lparr> concurrency = 1, stopOnError = True \<rparr>" crashedWorld busyEngine 1]
      process_while_processing [of busyEngine 7 "respondWith 200" DEFAULT_RETRY_STRATEGY
        "\<lparr> concurrency = 1, stopOnError = True \<rparr>" crashedWorld busyEngine 1]
    by simp
qed

section \<open>The facade's request\<close>

lemma newEntry_fields [simp]:
  "id' (newEntry options now) = opt_id options"
  "status (newEntry options now) = Pending"
  "attemptCount (newEntry options now) = 0"
  "createdAt (newEntry options now) = now"
  "error (newEntry options now) = None"
  by (simp_all add: newEntry_def)

















end
